theory Spec2Isabelle
  imports Main
begin

section \<open>Entities\<close>

text \<open>
  The entity package of the server is used by the application and service layers
  (\<^verbatim>\<open>entity.Agent\<close>, \<^verbatim>\<open>entity.Execution\<close>, \<^verbatim>\<open>entity.ExecutionResult\<close>, ...).
  The records below hold the fields that the execution service and the attack
  orchestrator read and write. Identifiers are strings; a timestamp is the number of
  seconds since 1970-01-01T00:00:00Z (fractions of a second are left out), as a reading
  of \<^verbatim>\<open>time.Now()\<close> gives it.
\<close>

type_synonym Time = int

datatype AgentStatus = AgentOnline | AgentOffline

record Agent =
  agent_Paw :: string
  agent_Platform :: string
  agent_Executors :: "string list"
  agent_Status :: AgentStatus

record Executor =
  executor_Type :: string
  executor_Command :: string
  executor_Cleanup :: string
  executor_Timeout :: int

record Technique =
  technique_ID :: string
  technique_IsSafe :: bool

record Phase =
  phase_Name :: string
  phase_Techniques :: "string list"

record Scenario =
  scenario_ID :: string
  scenario_Phases :: "Phase list"

text \<open>
  \<^verbatim>\<open>ExecutionStatus\<close> and \<^verbatim>\<open>ResultStatus\<close> are string types with named constants.
  The execution service names \<^verbatim>\<open>ExecutionPending\<close>, \<^verbatim>\<open>ExecutionRunning\<close>,
  \<^verbatim>\<open>ExecutionCompleted\<close> and \<^verbatim>\<open>ExecutionCancelled\<close>, and the result statuses
  \<^verbatim>\<open>StatusPending\<close>, \<^verbatim>\<open>StatusRunning\<close> and \<^verbatim>\<open>StatusSkipped\<close>; the remaining
  result statuses are the terminal outcomes of the data model.
\<close>

datatype ExecutionStatus =
  ExecutionPending | ExecutionRunning | ExecutionCompleted | ExecutionCancelled

datatype ResultStatus =
  StatusPending | StatusRunning | StatusBlocked | StatusDetected | StatusSuccessful
  | StatusSkipped

record 's Execution =
  execution_ID :: string
  execution_ScenarioID :: string
  execution_AgentPaws :: "string list"
  execution_Status :: ExecutionStatus
  execution_StartedAt :: Time
  execution_CompletedAt :: "Time option"
  execution_SafeMode :: bool
  execution_Score :: "'s option"

record ExecutionResult =
  result_ID :: string
  result_ExecutionID :: string
  result_TechniqueID :: string
  result_AgentPaw :: string
  result_Status :: ResultStatus
  result_Output :: string
  result_ExitCode :: int
  result_Detected :: bool
  result_StartedAt :: Time
  result_CompletedAt :: "Time option"

text \<open>
  Go errors are values; every \<^verbatim>\<open>fmt.Errorf\<close> of the modelled code is one
  constructor, and a wrapped cause (\<^verbatim>\<open>%w\<close>) is its argument.
\<close>

datatype error =
  RowNotFound
  | StoreUnavailable
  | ScenarioNotFound
  | FailedToLoadAgents
  | AgentNotFound string
  | AgentNotOnline string
  | NoExecutableTasks
  | FailedToPlan error
  | FailedToCreateExecution error
  | FailedToCreateResult error
  | ResultNotFound error
  | ExecutionNotFound error
  | CannotBeCancelled ExecutionStatus
  | FailedToGetResults error
  | FailedToUpdateResult string error

section \<open>The attack orchestrator\<close>

text \<open>
  The orchestrator and the execution service read three catalogues through repository
  interfaces (techniques, scenarios, agents) and call two entity methods,
  \<^verbatim>\<open>Agent.IsCompatible\<close> and \<^verbatim>\<open>Technique.GetExecutorForPlatform\<close>. None of
  them writes anything, so they are the fields of an environment: a lookup that returns
  an error is \<open>None\<close>, and a \<^verbatim>\<open>nil\<close> executor is \<open>None\<close>.
\<close>

record env =
  techniqueRepo_FindByID :: "string \<Rightarrow> Technique option"
  scenarioRepo_FindByID :: "string \<Rightarrow> Scenario option"
  agentRepo_FindByPaws :: "string list \<Rightarrow> Agent list option"
  IsCompatible :: "Agent \<Rightarrow> Technique \<Rightarrow> bool"
  GetExecutorForPlatform :: "Technique \<Rightarrow> string \<Rightarrow> string list \<Rightarrow> Executor option"

record PlannedTask =
  task_TechniqueID :: string
  task_AgentPaw :: string
  task_Phase :: string
  task_Order :: int
  task_Command :: string
  task_Cleanup :: string
  task_Timeout :: int

record ExecutionPlan =
  plan_ID :: string
  plan_Tasks :: "PlannedTask list"

text \<open>
  The three nested loops of \<^verbatim>\<open>PlanExecution\<close>. The loop state is the pair of
  \<^verbatim>\<open>plan.Tasks\<close> and \<^verbatim>\<open>taskOrder\<close>; \<^verbatim>\<open>continue\<close> leaves it as it is.
\<close>

fun plan_agents ::
  "env \<Rightarrow> string \<Rightarrow> string \<Rightarrow> Technique \<Rightarrow> Agent list \<Rightarrow> PlannedTask list \<times> int
    \<Rightarrow> PlannedTask list \<times> int" where
  "plan_agents E phaseName techID technique [] st = st"
| "plan_agents E phaseName techID technique (agent # rest) (tasks, taskOrder) =
     (if \<not> IsCompatible E agent technique
      then plan_agents E phaseName techID technique rest (tasks, taskOrder)
      else
        (case GetExecutorForPlatform E technique (agent_Platform agent) (agent_Executors agent) of
           None \<Rightarrow> plan_agents E phaseName techID technique rest (tasks, taskOrder)
         | Some executor \<Rightarrow>
             plan_agents E phaseName techID technique rest
               (tasks @ [\<lparr>task_TechniqueID = techID,
                           task_AgentPaw = agent_Paw agent,
                           task_Phase = phaseName,
                           task_Order = taskOrder,
                           task_Command = executor_Command executor,
                           task_Cleanup = executor_Cleanup executor,
                           task_Timeout = executor_Timeout executor\<rparr>],
                taskOrder + 1)))"

fun plan_techniques ::
  "env \<Rightarrow> Agent list \<Rightarrow> bool \<Rightarrow> string \<Rightarrow> string list \<Rightarrow> PlannedTask list \<times> int
    \<Rightarrow> PlannedTask list \<times> int" where
  "plan_techniques E targetAgents safeMode phaseName [] st = st"
| "plan_techniques E targetAgents safeMode phaseName (techID # rest) st =
     (case techniqueRepo_FindByID E techID of
        None \<Rightarrow> plan_techniques E targetAgents safeMode phaseName rest st
      | Some technique \<Rightarrow>
          (if safeMode \<and> \<not> technique_IsSafe technique
           then plan_techniques E targetAgents safeMode phaseName rest st
           else plan_techniques E targetAgents safeMode phaseName rest
                  (plan_agents E phaseName techID technique targetAgents st)))"

fun plan_phases ::
  "env \<Rightarrow> Agent list \<Rightarrow> bool \<Rightarrow> Phase list \<Rightarrow> PlannedTask list \<times> int
    \<Rightarrow> PlannedTask list \<times> int" where
  "plan_phases E targetAgents safeMode [] st = st"
| "plan_phases E targetAgents safeMode (phase # rest) st =
     plan_phases E targetAgents safeMode rest
       (plan_techniques E targetAgents safeMode (phase_Name phase) (phase_Techniques phase) st)"

text \<open>
  \<^verbatim>\<open>PlanExecution\<close>; \<open>planID\<close> is the value of \<^verbatim>\<open>uuid.New().String()\<close>.
\<close>

definition PlanExecution ::
  "env \<Rightarrow> string \<Rightarrow> Scenario \<Rightarrow> Agent list \<Rightarrow> bool \<Rightarrow> error + ExecutionPlan" where
  "PlanExecution E planID scenario targetAgents safeMode =
     (let (tasks, taskOrder) =
            plan_phases E targetAgents safeMode (scenario_Phases scenario) ([], 0)
      in if length tasks = 0 then Inl NoExecutableTasks
         else Inr \<lparr>plan_ID = planID, plan_Tasks = tasks\<rparr>)"

section \<open>The result repository\<close>

text \<open>
  Modelled from the spec: the Result/Execution store behind
  \<^verbatim>\<open>repository.ResultRepository\<close> (an interface; its implementation is not part of the
  service). It is a table of Execution rows and a table of ExecutionResult rows, kept in
  insertion order; a lookup by id returns the first row with that id, an update replaces
  the rows with the id of the given record, and \<^verbatim>\<open>FindResultsByExecution\<close> returns the
  rows of one execution in table order. Each call may fail: \<open>faults\<close> is the script of
  the store's availability, one flag per call (\<open>True\<close>: this call returns an error and
  changes nothing); when the script is used up every call succeeds.
\<close>

record 's store =
  executions :: "'s Execution list"
  results :: "ExecutionResult list"
  faults :: "bool list"

text \<open>Modelled from the spec: the availability of the store at one call. The head of
  the script says whether the call fails; the script moves on by one.\<close>

definition tick :: "'s store \<Rightarrow> bool \<times> 's store" where
  "tick s = (case faults s of [] \<Rightarrow> (False, s) | f # fs \<Rightarrow> (f, s\<lparr>faults := fs\<rparr>))"

text \<open>Modelled from the spec: \<^verbatim>\<open>FindResultByID\<close>, the first result row with the
  identifier, or an error when there is none.\<close>

definition FindResultByID ::
  "string \<Rightarrow> 's store \<Rightarrow> (error + ExecutionResult) \<times> 's store" where
  "FindResultByID resultID s =
     (let (failed, s') = tick s in
      if failed then (Inl StoreUnavailable, s')
      else (case find (\<lambda>r. result_ID r = resultID) (results s') of
              None \<Rightarrow> (Inl RowNotFound, s')
            | Some r \<Rightarrow> (Inr r, s')))"

text \<open>Modelled from the spec: \<^verbatim>\<open>UpdateResult\<close>, which replaces the row that has the
  identifier of the given result.\<close>

definition UpdateResult :: "ExecutionResult \<Rightarrow> 's store \<Rightarrow> (error + unit) \<times> 's store" where
  "UpdateResult result s =
     (let (failed, s') = tick s in
      if failed then (Inl StoreUnavailable, s')
      else (Inr (),
            s'\<lparr>results := map (\<lambda>r. if result_ID r = result_ID result then result else r)
                              (results s')\<rparr>))"

text \<open>Modelled from the spec: \<^verbatim>\<open>CreateResult\<close>, which appends a row.\<close>

definition CreateResult :: "ExecutionResult \<Rightarrow> 's store \<Rightarrow> (error + unit) \<times> 's store" where
  "CreateResult result s =
     (let (failed, s') = tick s in
      if failed then (Inl StoreUnavailable, s')
      else (Inr (), s'\<lparr>results := results s' @ [result]\<rparr>))"

text \<open>Modelled from the spec: \<^verbatim>\<open>FindResultsByExecution\<close>, the result rows of one
  execution in table order.\<close>

definition FindResultsByExecution ::
  "string \<Rightarrow> 's store \<Rightarrow> (error + ExecutionResult list) \<times> 's store" where
  "FindResultsByExecution executionID s =
     (let (failed, s') = tick s in
      if failed then (Inl StoreUnavailable, s')
      else (Inr (filter (\<lambda>r. result_ExecutionID r = executionID) (results s')), s'))"

text \<open>Modelled from the spec: \<^verbatim>\<open>FindExecutionByID\<close>, the first execution row with the
  identifier, or an error when there is none.\<close>

definition FindExecutionByID ::
  "string \<Rightarrow> 's store \<Rightarrow> (error + 's Execution) \<times> 's store" where
  "FindExecutionByID executionID s =
     (let (failed, s') = tick s in
      if failed then (Inl StoreUnavailable, s')
      else (case find (\<lambda>e. execution_ID e = executionID) (executions s') of
              None \<Rightarrow> (Inl RowNotFound, s')
            | Some e \<Rightarrow> (Inr e, s')))"

text \<open>Modelled from the spec: \<^verbatim>\<open>UpdateExecution\<close>, which replaces the row that has
  the identifier of the given execution.\<close>

definition UpdateExecution :: "'s Execution \<Rightarrow> 's store \<Rightarrow> (error + unit) \<times> 's store" where
  "UpdateExecution execution s =
     (let (failed, s') = tick s in
      if failed then (Inl StoreUnavailable, s')
      else (Inr (),
            s'\<lparr>executions :=
                   map (\<lambda>e. if execution_ID e = execution_ID execution then execution else e)
                     (executions s')\<rparr>))"

text \<open>Modelled from the spec: \<^verbatim>\<open>CreateExecution\<close>, which appends a row.\<close>

definition CreateExecution :: "'s Execution \<Rightarrow> 's store \<Rightarrow> (error + unit) \<times> 's store" where
  "CreateExecution execution s =
     (let (failed, s') = tick s in
      if failed then (Inl StoreUnavailable, s')
      else (Inr (), s'\<lparr>executions := executions s' @ [execution]\<rparr>))"

section \<open>The execution service\<close>

text \<open>
  Every method returns its Go result (\<open>Inl\<close>: the error) together with the store it
  leaves behind. The score calculator is the parameter \<open>calc\<close>; the readings of
  \<^verbatim>\<open>time.Now()\<close> and the fresh identifiers are parameters as well.
\<close>

record TaskDispatchInfo =
  dispatch_ResultID :: string
  dispatch_AgentPaw :: string
  dispatch_TechniqueID :: string
  dispatch_Command :: string
  dispatch_Executor :: string
  dispatch_Timeout :: int
  dispatch_Cleanup :: string

record 's ExecutionWithTasks =
  started_Execution :: "'s Execution"
  started_Tasks :: "TaskDispatchInfo list"

text \<open>The lookup table built from the loaded agents: a later agent overwrites an
  earlier one with the same paw.\<close>

fun build_agentMap :: "Agent list \<Rightarrow> (string \<rightharpoonup> Agent) \<Rightarrow> (string \<rightharpoonup> Agent)" where
  "build_agentMap [] m = m"
| "build_agentMap (agent # rest) m = build_agentMap rest (m(agent_Paw agent \<mapsto> agent))"

text \<open>The validation loop over the requested paws; \<open>None\<close>: every paw passed.\<close>

fun verify_agents :: "(string \<rightharpoonup> Agent) \<Rightarrow> string list \<Rightarrow> error option" where
  "verify_agents agentMap [] = None"
| "verify_agents agentMap (paw # rest) =
     (case agentMap paw of
        None \<Rightarrow> Some (AgentNotFound paw)
      | Some agent \<Rightarrow>
          if agent_Status agent \<noteq> AgentOnline then Some (AgentNotOnline paw)
          else verify_agents agentMap rest)"

text \<open>
  The loop that creates one pending result per planned task. \<open>i\<close> counts the tasks
  handled so far: the \<open>i\<close>-th result takes the identifier \<open>uuid (2 + i)\<close> and the clock
  reading \<open>clock (1 + i)\<close>.
\<close>

fun create_results ::
  "env \<Rightarrow> (string \<rightharpoonup> Agent) \<Rightarrow> (nat \<Rightarrow> string) \<Rightarrow> (nat \<Rightarrow> Time) \<Rightarrow> string \<Rightarrow> nat
    \<Rightarrow> PlannedTask list \<Rightarrow> TaskDispatchInfo list \<Rightarrow> 's store
    \<Rightarrow> (error + TaskDispatchInfo list) \<times> 's store" where
  "create_results E agentMap uuid clock executionID i [] tasks s = (Inr tasks, s)"
| "create_results E agentMap uuid clock executionID i (task # rest) tasks s =
     (let result = \<lparr>result_ID = uuid (2 + i),
                     result_ExecutionID = executionID,
                     result_TechniqueID = task_TechniqueID task,
                     result_AgentPaw = task_AgentPaw task,
                     result_Status = StatusPending,
                     result_Output = [],
                     result_ExitCode = 0,
                     result_Detected = False,
                     result_StartedAt = clock (1 + i),
                     result_CompletedAt = None\<rparr>
      in case CreateResult result s of
           (Inl err, s1) \<Rightarrow> (Inl (FailedToCreateResult err), s1)
         | (Inr u, s1) \<Rightarrow>
             (let executor =
                    (case techniqueRepo_FindByID E (task_TechniqueID task) of
                       None \<Rightarrow> ''sh''
                     | Some technique \<Rightarrow>
                         (case agentMap (task_AgentPaw task) of
                            None \<Rightarrow> ''sh''
                          | Some agent \<Rightarrow>
                              (case GetExecutorForPlatform E technique (agent_Platform agent)
                                      (agent_Executors agent) of
                                 None \<Rightarrow> ''sh''
                               | Some exec \<Rightarrow> executor_Type exec)))
              in create_results E agentMap uuid clock executionID (i + 1) rest
                   (tasks @ [\<lparr>dispatch_ResultID = result_ID result,
                               dispatch_AgentPaw = task_AgentPaw task,
                               dispatch_TechniqueID = task_TechniqueID task,
                               dispatch_Command = task_Command task,
                               dispatch_Executor = executor,
                               dispatch_Timeout = task_Timeout task,
                               dispatch_Cleanup = task_Cleanup task\<rparr>])
                   s1))"

text \<open>\<^verbatim>\<open>StartExecution\<close>: \<open>uuid 0\<close> is the plan's identifier and \<open>uuid 1\<close> the
  execution's; \<open>clock 0\<close> is the execution's start time.\<close>

definition StartExecution ::
  "env \<Rightarrow> (nat \<Rightarrow> string) \<Rightarrow> (nat \<Rightarrow> Time) \<Rightarrow> string \<Rightarrow> string list \<Rightarrow> bool \<Rightarrow> 's store
    \<Rightarrow> (error + 's ExecutionWithTasks) \<times> 's store" where
  "StartExecution E uuid clock scenarioID agentPaws safeMode s =
     (case scenarioRepo_FindByID E scenarioID of
        None \<Rightarrow> (Inl ScenarioNotFound, s)
      | Some scenario \<Rightarrow>
          (case agentRepo_FindByPaws E agentPaws of
             None \<Rightarrow> (Inl FailedToLoadAgents, s)
           | Some agents \<Rightarrow>
               (let agentMap = build_agentMap agents Map.empty in
                case verify_agents agentMap agentPaws of
                  Some err \<Rightarrow> (Inl err, s)
                | None \<Rightarrow>
                    (case PlanExecution E (uuid 0) scenario agents safeMode of
                       Inl err \<Rightarrow> (Inl (FailedToPlan err), s)
                     | Inr plan \<Rightarrow>
                         (let execution = \<lparr>execution_ID = uuid 1,
                                            execution_ScenarioID = scenarioID,
                                            execution_AgentPaws = agentPaws,
                                            execution_Status = ExecutionRunning,
                                            execution_StartedAt = clock 0,
                                            execution_CompletedAt = None,
                                            execution_SafeMode = safeMode,
                                            execution_Score = None\<rparr>
                          in case CreateExecution execution s of
                               (Inl err, s1) \<Rightarrow> (Inl (FailedToCreateExecution err), s1)
                             | (Inr u, s1) \<Rightarrow>
                                 (case create_results E agentMap uuid clock (execution_ID execution)
                                         0 (plan_Tasks plan) [] s1 of
                                    (Inl err, s2) \<Rightarrow> (Inl err, s2)
                                  | (Inr tasks, s2) \<Rightarrow>
                                      (Inr \<lparr>started_Execution = execution,
                                            started_Tasks = tasks\<rparr>, s2)))))))"

text \<open>\<^verbatim>\<open>CompleteExecution\<close>; \<open>now\<close> is its reading of the clock.\<close>

definition CompleteExecution ::
  "(ExecutionResult list \<Rightarrow> 's) \<Rightarrow> Time \<Rightarrow> string \<Rightarrow> 's store \<Rightarrow> (error + unit) \<times> 's store" where
  "CompleteExecution calc now executionID s =
     (case FindExecutionByID executionID s of
        (Inl err, s1) \<Rightarrow> (Inl err, s1)
      | (Inr execution, s1) \<Rightarrow>
          (case FindResultsByExecution executionID s1 of
             (Inl err, s2) \<Rightarrow> (Inl err, s2)
           | (Inr rs, s2) \<Rightarrow>
               UpdateExecution
                 (execution\<lparr>execution_Score := Some (calc rs),
                            execution_Status := ExecutionCompleted,
                            execution_CompletedAt := Some now\<rparr>) s2))"

text \<open>The scan of \<^verbatim>\<open>checkAndCompleteExecution\<close> for a result that is still pending
  or running; it stops at the first one.\<close>

fun allDone :: "ExecutionResult list \<Rightarrow> bool" where
  "allDone [] = True"
| "allDone (r # rest) =
     (if result_Status r = StatusPending \<or> result_Status r = StatusRunning then False
      else allDone rest)"

definition checkAndCompleteExecution ::
  "(ExecutionResult list \<Rightarrow> 's) \<Rightarrow> Time \<Rightarrow> string \<Rightarrow> 's store \<Rightarrow> (error + unit) \<times> 's store" where
  "checkAndCompleteExecution calc now executionID s =
     (case FindResultsByExecution executionID s of
        (Inl err, s1) \<Rightarrow> (Inr (), s1)
      | (Inr rs, s1) \<Rightarrow>
          if allDone rs \<and> length rs > 0 then CompleteExecution calc now executionID s1
          else (Inr (), s1))"

text \<open>\<^verbatim>\<open>UpdateResultByID\<close>: \<open>now\<close> is the clock reading of the update itself and
  \<open>now_c\<close> the later one of \<^verbatim>\<open>CompleteExecution\<close>.\<close>

definition UpdateResultByID ::
  "(ExecutionResult list \<Rightarrow> 's) \<Rightarrow> Time \<Rightarrow> Time \<Rightarrow> string \<Rightarrow> ResultStatus \<Rightarrow> string \<Rightarrow> int
    \<Rightarrow> 's store \<Rightarrow> (error + unit) \<times> 's store" where
  "UpdateResultByID calc now now_c resultID status output exitCode s =
     (case FindResultByID resultID s of
        (Inl err, s1) \<Rightarrow> (Inl (ResultNotFound err), s1)
      | (Inr result, s1) \<Rightarrow>
          (let executionID = result_ExecutionID result;
               result' = result\<lparr>result_Status := status,
                                result_Output := output,
                                result_ExitCode := exitCode,
                                result_CompletedAt := Some now\<rparr>
           in case UpdateResult result' s1 of
                (Inl err, s2) \<Rightarrow> (Inl err, s2)
              | (Inr u, s2) \<Rightarrow> checkAndCompleteExecution calc now_c executionID s2))"

text \<open>The loop of \<^verbatim>\<open>CancelExecution\<close> over the loaded results.\<close>

fun skip_results ::
  "Time \<Rightarrow> ExecutionResult list \<Rightarrow> 's store \<Rightarrow> (error + unit) \<times> 's store" where
  "skip_results now [] s = (Inr (), s)"
| "skip_results now (result # rest) s =
     (if result_Status result = StatusPending \<or> result_Status result = StatusRunning
      then (case UpdateResult (result\<lparr>result_Status := StatusSkipped,
                                      result_CompletedAt := Some now\<rparr>) s of
              (Inl err, s1) \<Rightarrow> (Inl (FailedToUpdateResult (result_ID result) err), s1)
            | (Inr u, s1) \<Rightarrow> skip_results now rest s1)
      else skip_results now rest s)"

definition CancelExecution ::
  "Time \<Rightarrow> string \<Rightarrow> 's store \<Rightarrow> (error + unit) \<times> 's store" where
  "CancelExecution now executionID s =
     (case FindExecutionByID executionID s of
        (Inl err, s1) \<Rightarrow> (Inl (ExecutionNotFound err), s1)
      | (Inr execution, s1) \<Rightarrow>
          if execution_Status execution \<noteq> ExecutionRunning
             \<and> execution_Status execution \<noteq> ExecutionPending
          then (Inl (CannotBeCancelled (execution_Status execution)), s1)
          else
            (case FindResultsByExecution executionID s1 of
               (Inl err, s2) \<Rightarrow> (Inl (FailedToGetResults err), s2)
             | (Inr rs, s2) \<Rightarrow>
                 (case skip_results now rs s2 of
                    (Inl err, s3) \<Rightarrow> (Inl err, s3)
                  | (Inr u, s3) \<Rightarrow>
                      UpdateExecution
                        (execution\<lparr>execution_Status := ExecutionCancelled,
                                   execution_CompletedAt := Some now\<rparr>) s3)))"

section \<open>The vocabulary of the properties\<close>

text \<open>
  An agent is a compatible target of a technique when it
  passes both tests of the inner loop: \<^verbatim>\<open>IsCompatible\<close> holds and an executor is
  found for its platform. A technique id is selected when the catalogue knows it and safe
  mode does not exclude it.
\<close>

definition executable :: "env \<Rightarrow> Technique \<Rightarrow> Agent \<Rightarrow> bool" where
  "executable E technique agent \<longleftrightarrow>
     IsCompatible E agent technique \<and>
     GetExecutorForPlatform E technique (agent_Platform agent) (agent_Executors agent) \<noteq> None"

definition selected :: "env \<Rightarrow> bool \<Rightarrow> string \<Rightarrow> Technique option" where
  "selected E safeMode techID =
     (case techniqueRepo_FindByID E techID of
        None \<Rightarrow> None
      | Some technique \<Rightarrow> if safeMode \<and> \<not> technique_IsSafe technique then None else Some technique)"

text \<open>
  The plan as the specification words it: phases in declared order, within a phase the
  technique ids in declared order, within a technique the target agents in given order.
  \<open>scenario_pairs\<close> lists the (phase, technique id, paw) triples in that order.
\<close>

definition task_key :: "PlannedTask \<Rightarrow> string \<times> string \<times> string" where
  "task_key t = (task_Phase t, task_TechniqueID t, task_AgentPaw t)"

definition technique_pairs :: "env \<Rightarrow> Agent list \<Rightarrow> bool \<Rightarrow> string \<Rightarrow> string \<Rightarrow> (string \<times> string \<times> string) list" where
  "technique_pairs E targetAgents safeMode phaseName techID =
     (case selected E safeMode techID of
        None \<Rightarrow> []
      | Some technique \<Rightarrow>
          map (\<lambda>agent. (phaseName, techID, agent_Paw agent))
            (filter (executable E technique) targetAgents))"

definition phase_pairs :: "env \<Rightarrow> Agent list \<Rightarrow> bool \<Rightarrow> Phase \<Rightarrow> (string \<times> string \<times> string) list" where
  "phase_pairs E targetAgents safeMode phase =
     concat (map (technique_pairs E targetAgents safeMode (phase_Name phase)) (phase_Techniques phase))"

definition scenario_pairs :: "env \<Rightarrow> Scenario \<Rightarrow> Agent list \<Rightarrow> bool \<Rightarrow> (string \<times> string \<times> string) list" where
  "scenario_pairs E scenario targetAgents safeMode =
     concat (map (phase_pairs E targetAgents safeMode) (scenario_Phases scenario))"

text \<open>The loop invariant of the counter: \<^verbatim>\<open>taskOrder\<close> is the number of tasks
  appended so far, and the \<open>i\<close>-th task carries \<open>i\<close>.\<close>

definition counted :: "PlannedTask list \<times> int \<Rightarrow> bool" where
  "counted st \<longleftrightarrow>
     map task_Order (fst st) = map int [0..<length (fst st)] \<and> snd st = int (length (fst st))"

definition scenario_technique_ids :: "Scenario \<Rightarrow> string list" where
  "scenario_technique_ids scenario = concat (map phase_Techniques (scenario_Phases scenario))"

text \<open>The scenario with the technique ids that the catalogue does not know removed.\<close>

definition known :: "env \<Rightarrow> string \<Rightarrow> bool" where
  "known E techID \<longleftrightarrow> techniqueRepo_FindByID E techID \<noteq> None"

definition known_only :: "env \<Rightarrow> Scenario \<Rightarrow> Scenario" where
  "known_only E scenario =
     scenario\<lparr>scenario_Phases :=
       map (\<lambda>phase. phase\<lparr>phase_Techniques := filter (known E) (phase_Techniques phase)\<rparr>)
         (scenario_Phases scenario)\<rparr>"

text \<open>How many planned tasks name the technique id and the paw.\<close>

definition pair_count :: "string \<Rightarrow> string \<Rightarrow> PlannedTask list \<Rightarrow> nat" where
  "pair_count techID paw tasks =
     length (filter (\<lambda>t. task_TechniqueID t = techID \<and> task_AgentPaw t = paw) tasks)"

text \<open>
  A small laboratory for the closed statements: two online agents, a catalogue of three
  techniques of which \<open>T1485\<close> is destructive, and a two-phase scenario. \<open>T1082\<close> runs on
  Linux only, the other techniques on every platform.
\<close>

definition agentA :: Agent where
  "agentA = \<lparr>agent_Paw = ''agentA'', agent_Platform = ''linux'', agent_Executors = [''sh''],
              agent_Status = AgentOnline\<rparr>"

definition agentB :: Agent where
  "agentB = \<lparr>agent_Paw = ''agentB'', agent_Platform = ''windows'', agent_Executors = [''psh''],
              agent_Status = AgentOnline\<rparr>"

definition agentC :: Agent where
  "agentC = \<lparr>agent_Paw = ''agentC'', agent_Platform = ''linux'', agent_Executors = [''sh''],
              agent_Status = AgentOffline\<rparr>"

definition sh_executor :: Executor where
  "sh_executor = \<lparr>executor_Type = ''sh'', executor_Command = ''run.sh'',
                   executor_Cleanup = ''clean.sh'', executor_Timeout = 60\<rparr>"

definition psh_executor :: Executor where
  "psh_executor = \<lparr>executor_Type = ''psh'', executor_Command = ''run.ps1'',
                    executor_Cleanup = ''clean.ps1'', executor_Timeout = 120\<rparr>"

definition kill_chain :: Scenario where
  "kill_chain = \<lparr>scenario_ID = ''S1'',
                  scenario_Phases = [\<lparr>phase_Name = ''discovery'', phase_Techniques = [''T1082'']\<rparr>,
                                     \<lparr>phase_Name = ''execution'', phase_Techniques = [''T1059'']\<rparr>]\<rparr>"

definition lab_env :: env where
  "lab_env =
     \<lparr>techniqueRepo_FindByID =
        (\<lambda>techID. if techID = ''T1082'' then Some \<lparr>technique_ID = ''T1082'', technique_IsSafe = True\<rparr>
                  else if techID = ''T1059'' then Some \<lparr>technique_ID = ''T1059'', technique_IsSafe = True\<rparr>
                  else if techID = ''T1485'' then Some \<lparr>technique_ID = ''T1485'', technique_IsSafe = False\<rparr>
                  else None),
      scenarioRepo_FindByID = (\<lambda>scenarioID. if scenarioID = ''S1'' then Some kill_chain else None),
      agentRepo_FindByPaws =
        (\<lambda>paws. Some (filter (\<lambda>agent. agent_Paw agent \<in> set paws) [agentA, agentB, agentC])),
      IsCompatible =
        (\<lambda>agent technique. technique_ID technique \<noteq> ''T1082'' \<or> agent_Platform agent = ''linux''),
      GetExecutorForPlatform =
        (\<lambda>technique platform executors.
           if platform = ''linux'' \<and> ''sh'' \<in> set executors then Some sh_executor
           else if platform = ''windows'' \<and> ''psh'' \<in> set executors then Some psh_executor
           else None)\<rparr>"

definition full_chain :: Scenario where
  "full_chain = \<lparr>scenario_ID = ''S2'',
                  scenario_Phases = [\<lparr>phase_Name = ''discovery'', phase_Techniques = [''T1082'']\<rparr>,
                                     \<lparr>phase_Name = ''execution'', phase_Techniques = [''T1059'']\<rparr>,
                                     \<lparr>phase_Name = ''impact'', phase_Techniques = [''T1485'']\<rparr>]\<rparr>"

definition twice_chain :: Scenario where
  "twice_chain = \<lparr>scenario_ID = ''S3'',
                   scenario_Phases = [\<lparr>phase_Name = ''discovery'', phase_Techniques = [''T1082'']\<rparr>,
                                      \<lparr>phase_Name = ''collection'', phase_Techniques = [''T1082'']\<rparr>]\<rparr>"

definition patchy_chain :: Scenario where
  "patchy_chain = \<lparr>scenario_ID = ''S4'',
                    scenario_Phases = [\<lparr>phase_Name = ''discovery'',
                                        phase_Techniques = [''T9999'', ''T1082'']\<rparr>,
                                       \<lparr>phase_Name = ''execution'', phase_Techniques = [''T1059'']\<rparr>]\<rparr>"

definition lab_plan :: ExecutionPlan where
  "lab_plan =
     \<lparr>plan_ID = ''plan-1'',
      plan_Tasks =
        [\<lparr>task_TechniqueID = ''T1082'', task_AgentPaw = ''agentA'', task_Phase = ''discovery'',
          task_Order = 0, task_Command = ''run.sh'', task_Cleanup = ''clean.sh'', task_Timeout = 60\<rparr>,
         \<lparr>task_TechniqueID = ''T1059'', task_AgentPaw = ''agentA'', task_Phase = ''execution'',
          task_Order = 1, task_Command = ''run.sh'', task_Cleanup = ''clean.sh'', task_Timeout = 60\<rparr>,
         \<lparr>task_TechniqueID = ''T1059'', task_AgentPaw = ''agentB'', task_Phase = ''execution'',
          task_Order = 2, task_Command = ''run.ps1'', task_Cleanup = ''clean.ps1'',
          task_Timeout = 120\<rparr>]\<rparr>"

text \<open>
  \<open>fault_at n s\<close>: the store \<open>s\<close> fails the \<open>n\<close>-th repository call from now (counting
  from 0). A result is unfinished while it is pending or running. The remaining
  definitions name the rows that the service writes.
\<close>

definition fault_at :: "nat \<Rightarrow> 's store \<Rightarrow> bool" where
  "fault_at n s \<longleftrightarrow> n < length (faults s) \<and> faults s ! n"

definition unfinished :: "ExecutionResult \<Rightarrow> bool" where
  "unfinished r \<longleftrightarrow> result_Status r = StatusPending \<or> result_Status r = StatusRunning"

definition results_of :: "string \<Rightarrow> ExecutionResult list \<Rightarrow> ExecutionResult list" where
  "results_of executionID rows = filter (\<lambda>r. result_ExecutionID r = executionID) rows"

definition put_result :: "ExecutionResult \<Rightarrow> ExecutionResult list \<Rightarrow> ExecutionResult list" where
  "put_result result rows = map (\<lambda>r. if result_ID r = result_ID result then result else r) rows"

definition put_execution :: "'s Execution \<Rightarrow> 's Execution list \<Rightarrow> 's Execution list" where
  "put_execution execution rows =
     map (\<lambda>e. if execution_ID e = execution_ID execution then execution else e) rows"

definition skipped :: "Time \<Rightarrow> ExecutionResult \<Rightarrow> ExecutionResult" where
  "skipped now r = r\<lparr>result_Status := StatusSkipped, result_CompletedAt := Some now\<rparr>"

definition rewritten :: "ResultStatus \<Rightarrow> string \<Rightarrow> int \<Rightarrow> Time \<Rightarrow> ExecutionResult \<Rightarrow> ExecutionResult" where
  "rewritten status output exitCode now r =
     r\<lparr>result_Status := status, result_Output := output, result_ExitCode := exitCode,
       result_CompletedAt := Some now\<rparr>"

definition completed :: "'s \<Rightarrow> Time \<Rightarrow> 's Execution \<Rightarrow> 's Execution" where
  "completed score now e =
     e\<lparr>execution_Score := Some score, execution_Status := ExecutionCompleted,
       execution_CompletedAt := Some now\<rparr>"

definition cancelled :: "Time \<Rightarrow> 's Execution \<Rightarrow> 's Execution" where
  "cancelled now e = e\<lparr>execution_Status := ExecutionCancelled, execution_CompletedAt := Some now\<rparr>"

definition pending_of :: "string \<Rightarrow> ExecutionResult list \<Rightarrow> ExecutionResult list" where
  "pending_of executionID rows = filter unfinished (results_of executionID rows)"

fun skip_rows :: "Time \<Rightarrow> ExecutionResult list \<Rightarrow> ExecutionResult list \<Rightarrow> ExecutionResult list" where
  "skip_rows now [] rows = rows"
| "skip_rows now (r # rest) rows =
     skip_rows now rest (if unfinished r then put_result (skipped now r) rows else rows)"

text \<open>
  Modelled from the spec: the counts of the score calculator (blocked, detected,
  successful, and their total; skipped results are left out). It stands for the
  calculator in the closed statements; the theorems hold for every calculator.
\<close>

definition tally :: "ExecutionResult list \<Rightarrow> nat \<times> nat \<times> nat \<times> nat" where
  "tally rs =
     (let blocked = length (filter (\<lambda>r. result_Status r = StatusBlocked) rs);
          detected = length (filter (\<lambda>r. result_Status r = StatusDetected) rs);
          successful = length (filter (\<lambda>r. result_Status r = StatusSuccessful) rs)
      in (blocked, detected, successful, blocked + detected + successful))"

text \<open>A store with one running execution and three results: one blocked, one
  running, one pending.\<close>

definition resultR1 :: ExecutionResult where
  "resultR1 = \<lparr>result_ID = ''R1'', result_ExecutionID = ''E1'', result_TechniqueID = ''T1082'',
                result_AgentPaw = ''agentA'', result_Status = StatusBlocked,
                result_Output = ''denied'', result_ExitCode = 1, result_Detected = False,
                result_StartedAt = 1, result_CompletedAt = Some 3\<rparr>"

definition resultR2 :: ExecutionResult where
  "resultR2 = \<lparr>result_ID = ''R2'', result_ExecutionID = ''E1'', result_TechniqueID = ''T1059'',
                result_AgentPaw = ''agentA'', result_Status = StatusRunning,
                result_Output = [], result_ExitCode = 0, result_Detected = False,
                result_StartedAt = 1, result_CompletedAt = None\<rparr>"

definition resultR3 :: ExecutionResult where
  "resultR3 = \<lparr>result_ID = ''R3'', result_ExecutionID = ''E1'', result_TechniqueID = ''T1059'',
                result_AgentPaw = ''agentB'', result_Status = StatusPending,
                result_Output = [], result_ExitCode = 0, result_Detected = False,
                result_StartedAt = 1, result_CompletedAt = None\<rparr>"

definition executionE1 :: "(nat \<times> nat \<times> nat \<times> nat) Execution" where
  "executionE1 = \<lparr>execution_ID = ''E1'', execution_ScenarioID = ''S1'',
                   execution_AgentPaws = [''agentA'', ''agentB''],
                   execution_Status = ExecutionRunning, execution_StartedAt = 1,
                   execution_CompletedAt = None, execution_SafeMode = False,
                   execution_Score = None\<rparr>"

definition lab_store :: "bool list \<Rightarrow> (nat \<times> nat \<times> nat \<times> nat) store" where
  "lab_store script =
     \<lparr>executions = [executionE1], results = [resultR1, resultR2, resultR3], faults = script\<rparr>"

text \<open>The same execution with two results, the second still running.\<close>

definition small_store :: "bool list \<Rightarrow> (nat \<times> nat \<times> nat \<times> nat) store" where
  "small_store script =
     \<lparr>executions = [executionE1], results = [resultR1, resultR2], faults = script\<rparr>"

text \<open>The same rows with the execution still in status pending.\<close>

definition pending_store :: "(nat \<times> nat \<times> nat \<times> nat) store" where
  "pending_store =
     \<lparr>executions = [executionE1\<lparr>execution_Status := ExecutionPending\<rparr>],
      results = [resultR1, resultR2], faults = []\<rparr>"

text \<open>An empty store.\<close>

definition empty_store :: "(nat \<times> nat \<times> nat \<times> nat) store" where
  "empty_store = \<lparr>executions = [], results = [], faults = []\<rparr>"

text \<open>The identifiers and clock readings handed to \<^verbatim>\<open>StartExecution\<close> in the closed
  statements.\<close>

definition lab_uuid :: "nat \<Rightarrow> string" where
  "lab_uuid n = (if n = 0 then ''plan-1'' else if n = 1 then ''E9'' else if n = 2 then ''N1''
                 else if n = 3 then ''N2'' else if n = 4 then ''N3'' else ''N4'')"

definition lab_clock :: "nat \<Rightarrow> Time" where
  "lab_clock n = 20 + int n"

section \<open>The schedule entity\<close>





























section \<open>Properties of the orchestrator\<close>

lemma plan_agents_keys:
  "map task_key (fst (plan_agents E ph tid t ags st)) =
     map task_key (fst st) @ map (\<lambda>agent. (ph, tid, agent_Paw agent)) (filter (executable E t) ags)"
proof (induction ags arbitrary: st)
  case Nil
  then show ?case by simp
next
  case (Cons a ags)
  obtain tasks n where st: "st = (tasks, n)" by (cases st)
  show ?case
  proof (cases "executable E t a")
    case False
    then have "plan_agents E ph tid t (a # ags) st = plan_agents E ph tid t ags st"
      unfolding st by (auto simp: executable_def split: option.splits)
    with False show ?thesis
      by (simp add: Cons.IH)
  next
    case True
    then obtain ex where ex: "GetExecutorForPlatform E t (agent_Platform a) (agent_Executors a) = Some ex"
      and c: "IsCompatible E a t"
      by (auto simp: executable_def)
    define x where "x = \<lparr>task_TechniqueID = tid, task_AgentPaw = agent_Paw a, task_Phase = ph,
                 task_Order = n, task_Command = executor_Command ex,
                 task_Cleanup = executor_Cleanup ex, task_Timeout = executor_Timeout ex\<rparr>"
    have "plan_agents E ph tid t (a # ags) st = plan_agents E ph tid t ags (tasks @ [x], n + 1)"
      unfolding st x_def using ex c by simp
    moreover have "task_key x = (ph, tid, agent_Paw a)"
      by (simp add: x_def task_key_def)
    ultimately show ?thesis
      using True by (simp add: Cons.IH st)
  qed
qed

lemma plan_agents_counted:
  "counted st \<Longrightarrow> counted (plan_agents E ph tid t ags st)"
proof (induction ags arbitrary: st)
  case Nil
  then show ?case by simp
next
  case (Cons a ags)
  obtain tasks n where st: "st = (tasks, n)" by (cases st)
  have step: "counted (tasks @ [x\<lparr>task_Order := n\<rparr>], n + 1)" for x
    using Cons.prems unfolding st counted_def by simp
  show ?case
  proof (cases "executable E t a")
    case False
    then show ?thesis
      unfolding st using Cons.IH [of "(tasks, n)"] Cons.prems st
      by (auto simp: executable_def split: option.splits)
  next
    case True
    then obtain ex where ex: "GetExecutorForPlatform E t (agent_Platform a) (agent_Executors a) = Some ex"
      and c: "IsCompatible E a t"
      by (auto simp: executable_def)
    have "counted (tasks @ [\<lparr>task_TechniqueID = tid, task_AgentPaw = agent_Paw a, task_Phase = ph,
                 task_Order = n, task_Command = executor_Command ex,
                 task_Cleanup = executor_Cleanup ex, task_Timeout = executor_Timeout ex\<rparr>], n + 1)"
      using Cons.prems unfolding st counted_def by simp
    from Cons.IH [OF this] show ?thesis
      unfolding st using ex c by simp
  qed
qed

lemma plan_techniques_keys:
  "map task_key (fst (plan_techniques E ags sm ph tids st)) =
     map task_key (fst st) @ concat (map (technique_pairs E ags sm ph) tids)"
proof (induction tids arbitrary: st)
  case Nil
  then show ?case by simp
next
  case (Cons tid tids)
  show ?case
  proof (cases "selected E sm tid")
    case None
    then have "plan_techniques E ags sm ph (tid # tids) st = plan_techniques E ags sm ph tids st"
      by (auto simp: selected_def split: option.splits if_splits)
    with None show ?thesis
      by (simp add: Cons.IH technique_pairs_def)
  next
    case (Some t)
    then have "plan_techniques E ags sm ph (tid # tids) st =
        plan_techniques E ags sm ph tids (plan_agents E ph tid t ags st)"
      by (auto simp: selected_def split: option.splits if_splits)
    with Some show ?thesis
      by (simp add: Cons.IH technique_pairs_def plan_agents_keys)
  qed
qed

lemma plan_techniques_counted:
  "counted st \<Longrightarrow> counted (plan_techniques E ags sm ph tids st)"
proof (induction tids arbitrary: st)
  case Nil
  then show ?case by simp
next
  case (Cons tid tids)
  show ?case
  proof (cases "selected E sm tid")
    case None
    then have "plan_techniques E ags sm ph (tid # tids) st = plan_techniques E ags sm ph tids st"
      by (auto simp: selected_def split: option.splits if_splits)
    then show ?thesis
      using Cons.IH [OF Cons.prems] by simp
  next
    case (Some t)
    then have "plan_techniques E ags sm ph (tid # tids) st =
        plan_techniques E ags sm ph tids (plan_agents E ph tid t ags st)"
      by (auto simp: selected_def split: option.splits if_splits)
    then show ?thesis
      using Cons.IH [OF plan_agents_counted [OF Cons.prems]] by simp
  qed
qed

lemma plan_phases_keys:
  "map task_key (fst (plan_phases E ags sm phs st)) =
     map task_key (fst st) @ concat (map (phase_pairs E ags sm) phs)"
  by (induction phs arbitrary: st) (simp_all add: phase_pairs_def plan_techniques_keys)

lemma plan_phases_counted:
  "counted st \<Longrightarrow> counted (plan_phases E ags sm phs st)"
  by (induction phs arbitrary: st) (simp_all add: plan_techniques_counted)

lemma counted_init: "counted ([], 0)"
  by (simp add: counted_def)

text \<open>
  Claim C6. For a fixed scenario, target agents and safe-mode flag the planned tasks are,
  whatever the plan's identifier, the selected (technique, compatible agent) pairs
  listed phase by phase in declared order, technique by technique in declared order and
  agent by agent in given order; and the \<open>i\<close>-th task of the plan (from 0) has
  \<^verbatim>\<open>Order\<close> \<open>i\<close>: the counter runs through the whole plan and is not reset per phase.
\<close>

theorem PlanExecution_order:
  assumes "PlanExecution E planID scenario targetAgents safeMode = Inr plan"
  shows "map task_key (plan_Tasks plan) = scenario_pairs E scenario targetAgents safeMode
       \<and> (\<forall>i < length (plan_Tasks plan). task_Order (plan_Tasks plan ! i) = int i)
       \<and> (\<forall>planID'. PlanExecution E planID' scenario targetAgents safeMode =
              Inr (plan\<lparr>plan_ID := planID'\<rparr>))"
proof -
  obtain tasks n where
    p: "plan_phases E targetAgents safeMode (scenario_Phases scenario) ([], 0) = (tasks, n)"
    by (cases "plan_phases E targetAgents safeMode (scenario_Phases scenario) ([], 0)")
  from assms p have tasks: "plan_Tasks plan = tasks"
    by (auto simp: PlanExecution_def split: if_splits)
  have "map task_key tasks = scenario_pairs E scenario targetAgents safeMode"
    using plan_phases_keys [of E targetAgents safeMode "scenario_Phases scenario" "([], 0)"] p
    by (simp add: scenario_pairs_def)
  moreover have "counted (tasks, n)"
    using plan_phases_counted [OF counted_init, of E targetAgents safeMode "scenario_Phases scenario"] p
    by simp
  then have "map task_Order tasks = map int [0..<length tasks]"
    by (simp add: counted_def)
  then have "\<forall>i < length tasks. task_Order (tasks ! i) = int i"
    by (metis (no_types, lifting) add_0 length_map nth_map nth_upt)
  moreover have "PlanExecution E planID' scenario targetAgents safeMode =
      Inr (plan\<lparr>plan_ID := planID'\<rparr>)" for planID'
    using assms by (auto simp: PlanExecution_def split: if_splits prod.splits)
  ultimately show ?thesis
    by (simp add: tasks)
qed

theorem PlanExecution_order_witness:
  "PlanExecution lab_env ''plan-1'' kill_chain [agentA, agentB] False = Inr lab_plan
   \<and> map task_key (plan_Tasks lab_plan) =
       [(''discovery'', ''T1082'', ''agentA''), (''execution'', ''T1059'', ''agentA''),
        (''execution'', ''T1059'', ''agentB'')]
   \<and> task_Order (plan_Tasks lab_plan ! 0) = 0
   \<and> task_Order (plan_Tasks lab_plan ! 1) = 1
   \<and> task_Order (plan_Tasks lab_plan ! 2) = 2
   \<and> PlanExecution lab_env ''plan-7'' kill_chain [agentA, agentB] False =
        Inr (lab_plan\<lparr>plan_ID := ''plan-7''\<rparr>)"
proof -
  have h: "PlanExecution lab_env ''plan-1'' kill_chain [agentA, agentB] False = Inr lab_plan"
    by (simp add: PlanExecution_def lab_env_def kill_chain_def agentA_def agentB_def lab_plan_def
        sh_executor_def psh_executor_def)
  have l: "length (plan_Tasks lab_plan) = 3"
    by (simp add: lab_plan_def)
  show ?thesis
    using h PlanExecution_order [OF h] l
    by (simp add: scenario_pairs_def phase_pairs_def technique_pairs_def selected_def
        executable_def lab_env_def kill_chain_def agentA_def agentB_def
        sh_executor_def psh_executor_def)
qed

lemma PlanExecution_tasks:
  "PlanExecution E planID scenario targetAgents safeMode =
     (let tasks = fst (plan_phases E targetAgents safeMode (scenario_Phases scenario) ([], 0))
      in if tasks = [] then Inl NoExecutableTasks else Inr \<lparr>plan_ID = planID, plan_Tasks = tasks\<rparr>)"
  by (simp add: PlanExecution_def Let_def split: prod.splits)

lemma plan_tasks_keys:
  "map task_key (fst (plan_phases E ags sm (scenario_Phases sc) ([], 0))) = scenario_pairs E sc ags sm"
  by (simp add: plan_phases_keys scenario_pairs_def)

lemma technique_pairs_count:
  "length (filter (\<lambda>k. fst (snd k) = tid \<and> snd (snd k) = paw) (technique_pairs E ags sm ph tid')) =
     (if tid' = tid
      then (case selected E sm tid of
              None \<Rightarrow> 0
            | Some t \<Rightarrow> length (filter (\<lambda>a. executable E t a \<and> agent_Paw a = paw) ags))
      else 0)"
  by (simp add: technique_pairs_def filter_map comp_def conj_commute split: option.splits)

lemma phase_pairs_count:
  "length (filter (\<lambda>k. fst (snd k) = tid \<and> snd (snd k) = paw)
             (concat (map (technique_pairs E ags sm ph) tids))) =
     count_list tids tid *
       (case selected E sm tid of
          None \<Rightarrow> 0
        | Some t \<Rightarrow> length (filter (\<lambda>a. executable E t a \<and> agent_Paw a = paw) ags))"
  by (induction tids) (simp_all add: technique_pairs_count)

lemma scenario_pairs_count:
  "length (filter (\<lambda>k. fst (snd k) = tid \<and> snd (snd k) = paw)
             (concat (map (phase_pairs E ags sm) phs))) =
     count_list (concat (map phase_Techniques phs)) tid *
       (case selected E sm tid of
          None \<Rightarrow> 0
        | Some t \<Rightarrow> length (filter (\<lambda>a. executable E t a \<and> agent_Paw a = paw) ags))"
  by (induction phs) (simp_all add: phase_pairs_def phase_pairs_count algebra_simps)

lemma pair_count_keys:
  "pair_count tid paw tasks =
     length (filter (\<lambda>k. fst (snd k) = tid \<and> snd (snd k) = paw) (map task_key tasks))"
  by (simp add: pair_count_def filter_map comp_def task_key_def)

lemma plan_pair_count:
  "pair_count tid paw (fst (plan_phases E ags sm (scenario_Phases sc) ([], 0))) =
     count_list (scenario_technique_ids sc) tid *
       (case selected E sm tid of
          None \<Rightarrow> 0
        | Some t \<Rightarrow> length (filter (\<lambda>a. executable E t a \<and> agent_Paw a = paw) ags))"
  by (simp add: pair_count_keys plan_tasks_keys scenario_pairs_def scenario_pairs_count
      scenario_technique_ids_def)

lemma pairs_selected:
  assumes "k \<in> set (scenario_pairs E sc ags sm)"
  shows "\<exists>t. selected E sm (fst (snd k)) = Some t"
proof -
  from assms obtain ph tid where "k \<in> set (technique_pairs E ags sm ph tid)"
    by (auto simp: scenario_pairs_def phase_pairs_def)
  then show ?thesis
    by (cases "selected E sm tid") (auto simp: technique_pairs_def)
qed

lemma paw_once:
  assumes "length (filter (\<lambda>x. agent_Paw x = agent_Paw a) ags) = 1" and "a \<in> set ags" and "P a"
  shows "length (filter (\<lambda>x. P x \<and> agent_Paw x = agent_Paw a) ags) = 1"
proof -
  obtain b where b: "filter (\<lambda>x. agent_Paw x = agent_Paw a) ags = [b]"
    using assms(1) by (auto simp: length_Suc_conv)
  have "a \<in> set (filter (\<lambda>x. agent_Paw x = agent_Paw a) ags)"
    using assms(2) by simp
  then have "b = a" unfolding b by simp
  have "filter (\<lambda>x. P x \<and> agent_Paw x = agent_Paw a) ags =
      filter P (filter (\<lambda>x. agent_Paw x = agent_Paw a) ags)"
    by (simp add: conj_commute)
  then show ?thesis
    unfolding b using \<open>b = a\<close> assms(3) by simp
qed

text \<open>
  Claim C7, as the code has it. In safe mode every planned task names a technique that
  the catalogue knows and marks safe. For a safe technique id of the catalogue and a
  paw, the number of planned tasks with that technique id and paw is the number of times
  the scenario lists the technique id, times the number of compatible target agents
  with that paw: a technique id that the scenario lists in two places is planned in
  both. So a safe technique and a compatible target agent give exactly one planned task
  when the scenario lists the technique id once and the agent's paw occurs once among
  the target agents.
\<close>

theorem PlanExecution_safe_mode:
  assumes "PlanExecution E planID scenario targetAgents True = Inr plan"
  shows "(\<forall>t\<in>set (plan_Tasks plan).
            \<exists>technique. techniqueRepo_FindByID E (task_TechniqueID t) = Some technique \<and>
              technique_IsSafe technique)
       \<and> (\<forall>techID technique paw.
            techniqueRepo_FindByID E techID = Some technique \<and> technique_IsSafe technique \<longrightarrow>
            pair_count techID paw (plan_Tasks plan) =
              count_list (scenario_technique_ids scenario) techID *
              length (filter (\<lambda>a. executable E technique a \<and> agent_Paw a = paw) targetAgents))
       \<and> (\<forall>techID technique agent.
            techniqueRepo_FindByID E techID = Some technique \<and> technique_IsSafe technique \<and>
            count_list (scenario_technique_ids scenario) techID = 1 \<and>
            agent \<in> set targetAgents \<and> executable E technique agent \<and>
            length (filter (\<lambda>a. agent_Paw a = agent_Paw agent) targetAgents) = 1 \<longrightarrow>
            pair_count techID (agent_Paw agent) (plan_Tasks plan) = 1)"
proof -
  have tasks: "plan_Tasks plan =
      fst (plan_phases E targetAgents True (scenario_Phases scenario) ([], 0))"
    using assms by (auto simp: PlanExecution_tasks Let_def split: if_splits)
  have safe: "\<exists>technique. techniqueRepo_FindByID E (task_TechniqueID t) = Some technique \<and>
              technique_IsSafe technique" if "t \<in> set (plan_Tasks plan)" for t
  proof -
    from that have "task_key t \<in> set (map task_key (plan_Tasks plan))" by simp
    then have "task_key t \<in> set (scenario_pairs E scenario targetAgents True)"
      by (simp only: tasks plan_tasks_keys)
    from pairs_selected [OF this] obtain tech
      where "selected E True (task_TechniqueID t) = Some tech"
      by (auto simp: task_key_def)
    then show ?thesis
      by (auto simp: selected_def split: option.splits if_splits)
  qed
  have count: "pair_count techID paw (plan_Tasks plan) =
              count_list (scenario_technique_ids scenario) techID *
              length (filter (\<lambda>a. executable E technique a \<and> agent_Paw a = paw) targetAgents)"
    if "techniqueRepo_FindByID E techID = Some technique" "technique_IsSafe technique"
    for techID technique paw
  proof -
    have "selected E True techID = Some technique"
      using that by (simp add: selected_def)
    then show ?thesis
      by (simp add: tasks plan_pair_count)
  qed
  have once: "pair_count techID (agent_Paw agent) (plan_Tasks plan) = 1"
    if t: "techniqueRepo_FindByID E techID = Some technique" "technique_IsSafe technique"
      and l: "count_list (scenario_technique_ids scenario) techID = 1"
      and m: "agent \<in> set targetAgents" "executable E technique agent"
        "length (filter (\<lambda>a. agent_Paw a = agent_Paw agent) targetAgents) = 1"
    for techID technique agent
  proof -
    have "length (filter (\<lambda>a. executable E technique a \<and> agent_Paw a = agent_Paw agent)
        targetAgents) = 1"
      using paw_once [of agent targetAgents "executable E technique"] m by simp
    then show ?thesis
      using count [OF t, of "agent_Paw agent"] l by simp
  qed
  show ?thesis
  proof (intro conjI ballI allI impI)
    fix t assume "t \<in> set (plan_Tasks plan)"
    then show "\<exists>technique. techniqueRepo_FindByID E (task_TechniqueID t) = Some technique \<and>
              technique_IsSafe technique"
      by (rule safe)
  next
    fix techID technique paw
    assume "techniqueRepo_FindByID E techID = Some technique \<and> technique_IsSafe technique"
    then show "pair_count techID paw (plan_Tasks plan) =
              count_list (scenario_technique_ids scenario) techID *
              length (filter (\<lambda>a. executable E technique a \<and> agent_Paw a = paw) targetAgents)"
      using count by blast
  next
    fix techID technique agent
    assume "techniqueRepo_FindByID E techID = Some technique \<and> technique_IsSafe technique \<and>
            count_list (scenario_technique_ids scenario) techID = 1 \<and>
            agent \<in> set targetAgents \<and> executable E technique agent \<and>
            length (filter (\<lambda>a. agent_Paw a = agent_Paw agent) targetAgents) = 1"
    then show "pair_count techID (agent_Paw agent) (plan_Tasks plan) = 1"
      using once by blast
  qed
qed

theorem PlanExecution_safe_mode_witness:
  "PlanExecution lab_env ''plan-1'' full_chain [agentA, agentB] True = Inr lab_plan
   \<and> map task_TechniqueID (plan_Tasks lab_plan) = [''T1082'', ''T1059'', ''T1059'']
   \<and> count_list (scenario_technique_ids full_chain) ''T1059'' = 1
   \<and> length (filter (\<lambda>a. agent_Paw a = agent_Paw agentB) [agentA, agentB]) = 1
   \<and> techniqueRepo_FindByID lab_env ''T1059'' =
        Some \<lparr>technique_ID = ''T1059'', technique_IsSafe = True\<rparr>
   \<and> executable lab_env \<lparr>technique_ID = ''T1059'', technique_IsSafe = True\<rparr> agentB
   \<and> pair_count ''T1059'' (agent_Paw agentB) (plan_Tasks lab_plan) = 1
   \<and> techniqueRepo_FindByID lab_env ''T1485'' =
        Some \<lparr>technique_ID = ''T1485'', technique_IsSafe = False\<rparr>
   \<and> pair_count ''T1485'' (agent_Paw agentB) (plan_Tasks lab_plan) = 0"
proof -
  have h: "PlanExecution lab_env ''plan-1'' full_chain [agentA, agentB] True = Inr lab_plan"
    by (simp add: PlanExecution_def lab_env_def full_chain_def agentA_def agentB_def lab_plan_def
        sh_executor_def psh_executor_def)
  have l: "count_list (scenario_technique_ids full_chain) ''T1059'' = 1"
    by (simp add: scenario_technique_ids_def full_chain_def)
  have p: "length (filter (\<lambda>a. agent_Paw a = agent_Paw agentB) [agentA, agentB]) = 1"
    by (simp add: agentA_def agentB_def)
  have m: "agentB \<in> set [agentA, agentB]"
    by simp
  have t: "techniqueRepo_FindByID lab_env ''T1059'' =
        Some \<lparr>technique_ID = ''T1059'', technique_IsSafe = True\<rparr>"
    by (simp add: lab_env_def)
  have e: "executable lab_env \<lparr>technique_ID = ''T1059'', technique_IsSafe = True\<rparr> agentB"
    by (simp add: executable_def lab_env_def agentB_def)
  from PlanExecution_safe_mode [OF h]
  have "\<forall>techID technique agent.
            techniqueRepo_FindByID lab_env techID = Some technique \<and> technique_IsSafe technique \<and>
            count_list (scenario_technique_ids full_chain) techID = 1 \<and>
            agent \<in> set [agentA, agentB] \<and> executable lab_env technique agent \<and>
            length (filter (\<lambda>a. agent_Paw a = agent_Paw agent) [agentA, agentB]) = 1 \<longrightarrow>
            pair_count techID (agent_Paw agent) (plan_Tasks lab_plan) = 1"
    by blast
  then have "pair_count ''T1059'' (agent_Paw agentB) (plan_Tasks lab_plan) = 1"
    using t l m e p by (metis Technique.select_convs(2))
  moreover have "map task_TechniqueID (plan_Tasks lab_plan) = [''T1082'', ''T1059'', ''T1059'']"
    by (simp add: lab_plan_def)
  moreover have "techniqueRepo_FindByID lab_env ''T1485'' =
        Some \<lparr>technique_ID = ''T1485'', technique_IsSafe = False\<rparr>"
    by (simp add: lab_env_def)
  moreover have "pair_count ''T1485'' (agent_Paw agentB) (plan_Tasks lab_plan) = 0"
    by (simp add: pair_count_def lab_plan_def)
  ultimately show ?thesis
    using h l p t e by simp
qed

text \<open>
  The claim as stated fails: a safe technique that the scenario lists in two phases is
  planned twice for the same compatible agent; so is a technique listed once when the
  agent is given twice among the target agents.
\<close>

theorem PlanExecution_listed_twice:
  "\<not> isl (PlanExecution lab_env ''plan-2'' twice_chain [agentA] True)
   \<and> techniqueRepo_FindByID lab_env ''T1082'' =
        Some \<lparr>technique_ID = ''T1082'', technique_IsSafe = True\<rparr>
   \<and> executable lab_env \<lparr>technique_ID = ''T1082'', technique_IsSafe = True\<rparr> agentA
   \<and> pair_count ''T1082'' (agent_Paw agentA)
        (plan_Tasks (projr (PlanExecution lab_env ''plan-2'' twice_chain [agentA] True))) = 2
   \<and> \<not> isl (PlanExecution lab_env ''plan-3'' kill_chain [agentA, agentA] True)
   \<and> count_list (scenario_technique_ids kill_chain) ''T1082'' = 1
   \<and> pair_count ''T1082'' (agent_Paw agentA)
        (plan_Tasks (projr (PlanExecution lab_env ''plan-3'' kill_chain [agentA, agentA] True))) = 2"
  by (simp add: PlanExecution_def lab_env_def twice_chain_def kill_chain_def agentA_def
      sh_executor_def executable_def pair_count_def scenario_technique_ids_def)

lemma plan_techniques_known:
  "plan_techniques E ags sm ph (filter (known E) tids) st = plan_techniques E ags sm ph tids st"
  by (induction tids arbitrary: st) (auto simp: known_def split: option.splits)

lemma plan_phases_known:
  "plan_phases E ags sm
     (map (\<lambda>phase. phase\<lparr>phase_Techniques := filter (known E) (phase_Techniques phase)\<rparr>) phs) st =
     plan_phases E ags sm phs st"
  by (induction phs arbitrary: st) (simp_all add: plan_techniques_known)

text \<open>
  Claim C8. \<^verbatim>\<open>PlanExecution\<close> returns an error exactly when no task was planned, that
  is, when no selected technique has a compatible target agent; the error is then
  \<open>NoExecutableTasks\<close>, and a plan that is returned has tasks. A technique id that the
  catalogue does not know is skipped and nothing else: the result is the one for the
  scenario without the unknown ids.
\<close>

theorem PlanExecution_soft_lookup:
  "(isl (PlanExecution E planID scenario targetAgents safeMode) \<longleftrightarrow>
      scenario_pairs E scenario targetAgents safeMode = [])
   \<and> (\<forall>err. PlanExecution E planID scenario targetAgents safeMode = Inl err \<longrightarrow>
         err = NoExecutableTasks)
   \<and> (\<forall>plan. PlanExecution E planID scenario targetAgents safeMode = Inr plan \<longrightarrow>
         plan_Tasks plan \<noteq> [])
   \<and> PlanExecution E planID (known_only E scenario) targetAgents safeMode =
       PlanExecution E planID scenario targetAgents safeMode"
proof -
  have "fst (plan_phases E targetAgents safeMode (scenario_Phases scenario) ([], 0)) = [] \<longleftrightarrow>
      scenario_pairs E scenario targetAgents safeMode = []"
    using plan_tasks_keys [of E targetAgents safeMode scenario] by (metis map_is_Nil_conv)
  then have "isl (PlanExecution E planID scenario targetAgents safeMode) \<longleftrightarrow>
      scenario_pairs E scenario targetAgents safeMode = []"
    by (simp add: PlanExecution_tasks Let_def)
  moreover have "PlanExecution E planID (known_only E scenario) targetAgents safeMode =
       PlanExecution E planID scenario targetAgents safeMode"
    by (simp add: PlanExecution_tasks known_only_def plan_phases_known)
  moreover have "\<forall>err. PlanExecution E planID scenario targetAgents safeMode = Inl err \<longrightarrow>
         err = NoExecutableTasks"
    by (auto simp: PlanExecution_tasks Let_def split: if_splits)
  moreover have "\<forall>plan. PlanExecution E planID scenario targetAgents safeMode = Inr plan \<longrightarrow>
         plan_Tasks plan \<noteq> []"
    by (auto simp: PlanExecution_tasks Let_def split: if_splits)
  ultimately show ?thesis by blast
qed

theorem PlanExecution_soft_lookup_witness:
  "PlanExecution lab_env ''plan-1'' patchy_chain [agentA, agentB] False = Inr lab_plan
   \<and> techniqueRepo_FindByID lab_env ''T9999'' = None
   \<and> known_only lab_env patchy_chain = kill_chain\<lparr>scenario_ID := ''S4''\<rparr>
   \<and> PlanExecution lab_env ''plan-1'' (known_only lab_env patchy_chain) [agentA, agentB] False =
        Inr lab_plan
   \<and> plan_Tasks lab_plan \<noteq> []
   \<and> scenario_pairs lab_env patchy_chain [agentA, agentB] False \<noteq> []"
proof -
  have h: "PlanExecution lab_env ''plan-1'' patchy_chain [agentA, agentB] False = Inr lab_plan"
    by (simp add: PlanExecution_def lab_env_def patchy_chain_def agentA_def agentB_def
        lab_plan_def sh_executor_def psh_executor_def)
  have k: "known_only lab_env patchy_chain = kill_chain\<lparr>scenario_ID := ''S4''\<rparr>"
    by (simp add: known_only_def known_def lab_env_def patchy_chain_def kill_chain_def)
  have u: "techniqueRepo_FindByID lab_env ''T9999'' = None"
    by (simp add: lab_env_def)
  show ?thesis
    using h k u PlanExecution_soft_lookup [of lab_env "''plan-1''" patchy_chain "[agentA, agentB]" False]
    by auto
qed

section \<open>Properties of the execution service\<close>

lemma tick_eq: "tick s = (fault_at 0 s, s\<lparr>faults := tl (faults s)\<rparr>)"
  by (cases "faults s") (simp_all add: tick_def fault_at_def)

lemma fault_at_tl [simp]: "fault_at n (s\<lparr>faults := tl (faults s)\<rparr>) = fault_at (Suc n) s"
  by (cases "faults s") (simp_all add: fault_at_def)

lemma fault_at_drop [simp]: "fault_at n (s\<lparr>faults := drop k (faults s)\<rparr>) = fault_at (k + n) s"
  by (auto simp: fault_at_def)

lemma fault_at_results [simp]: "fault_at n (s\<lparr>results := rs\<rparr>) = fault_at n s"
  by (simp add: fault_at_def)

lemma fault_at_executions [simp]: "fault_at n (s\<lparr>executions := es\<rparr>) = fault_at n s"
  by (simp add: fault_at_def)

lemma FindResultByID_eq:
  "FindResultByID rid s =
     (if fault_at 0 s then Inl StoreUnavailable
      else case find (\<lambda>r. result_ID r = rid) (results s) of
             None \<Rightarrow> Inl RowNotFound | Some r \<Rightarrow> Inr r,
      s\<lparr>faults := tl (faults s)\<rparr>)"
  by (simp add: FindResultByID_def tick_eq split: option.splits)

lemma UpdateResult_eq:
  "UpdateResult r s =
     (if fault_at 0 s then (Inl StoreUnavailable, s\<lparr>faults := tl (faults s)\<rparr>)
      else (Inr (), s\<lparr>faults := tl (faults s), results := put_result r (results s)\<rparr>))"
  by (simp add: UpdateResult_def tick_eq put_result_def)

lemma FindResultsByExecution_eq:
  "FindResultsByExecution eid s =
     (if fault_at 0 s then Inl StoreUnavailable else Inr (results_of eid (results s)),
      s\<lparr>faults := tl (faults s)\<rparr>)"
  by (simp add: FindResultsByExecution_def tick_eq results_of_def)

lemma FindExecutionByID_eq:
  "FindExecutionByID eid s =
     (if fault_at 0 s then Inl StoreUnavailable
      else case find (\<lambda>e. execution_ID e = eid) (executions s) of
             None \<Rightarrow> Inl RowNotFound | Some e \<Rightarrow> Inr e,
      s\<lparr>faults := tl (faults s)\<rparr>)"
  by (simp add: FindExecutionByID_def tick_eq split: option.splits)

lemma UpdateExecution_eq:
  "UpdateExecution e s =
     (if fault_at 0 s then (Inl StoreUnavailable, s\<lparr>faults := tl (faults s)\<rparr>)
      else (Inr (), s\<lparr>faults := tl (faults s), executions := put_execution e (executions s)\<rparr>))"
  by (simp add: UpdateExecution_def tick_eq put_execution_def)

lemma allDone_iff: "allDone rs \<longleftrightarrow> (\<forall>r\<in>set rs. \<not> unfinished r)"
  by (induction rs) (auto simp: unfinished_def)

text \<open>CompleteExecution\<close>

lemma CompleteExecution_results [simp]:
  "results (snd (CompleteExecution calc now eid s)) = results s"
  by (simp add: CompleteExecution_def FindExecutionByID_eq FindResultsByExecution_eq
      UpdateExecution_eq split: option.splits)

lemma checkAndComplete_results [simp]:
  "results (snd (checkAndCompleteExecution calc now eid s)) = results s"
  by (simp add: checkAndCompleteExecution_def FindResultsByExecution_eq)

lemma CompleteExecution_success:
  assumes "CompleteExecution calc now eid s = (Inr (), s')"
  shows "\<exists>e. find (\<lambda>e. execution_ID e = eid) (executions s) = Some e \<and>
     executions s' = put_execution
        (e\<lparr>execution_Score := Some (calc (results_of eid (results s))),
           execution_Status := ExecutionCompleted,
           execution_CompletedAt := Some now\<rparr>) (executions s)"
  using assms
  by (auto simp: CompleteExecution_def FindExecutionByID_eq FindResultsByExecution_eq
      UpdateExecution_eq split: option.splits if_splits)

lemma UpdateResultByID_persisted:
  assumes "find (\<lambda>x. result_ID x = rid) (results s) = Some r"
    and "\<not> fault_at 0 s" and "\<not> fault_at (Suc 0) s"
  shows "UpdateResultByID calc now now_c rid status output exitCode s =
     checkAndCompleteExecution calc now_c (result_ExecutionID r)
       (s\<lparr>faults := drop 2 (faults s),
          results := put_result (rewritten status output exitCode now r) (results s)\<rparr>)"
  using assms
  by (simp add: UpdateResultByID_def FindResultByID_eq UpdateResult_eq rewritten_def
      drop_Suc drop_tl numeral_2_eq_2)

lemma UpdateResultByID_success_persisted:
  assumes "UpdateResultByID calc now now_c rid status output exitCode s = (Inr (), s')"
  shows "\<exists>r. find (\<lambda>x. result_ID x = rid) (results s) = Some r \<and> \<not> fault_at 0 s \<and> \<not> fault_at (Suc 0) s"
  using assms
  by (auto simp: UpdateResultByID_def FindResultByID_eq UpdateResult_eq
      split: option.splits if_splits)

lemma checkAndComplete_swallow:
  assumes "fault_at 0 s"
  shows "checkAndCompleteExecution calc now eid s = (Inr (), s\<lparr>faults := tl (faults s)\<rparr>)"
  using assms by (simp add: checkAndCompleteExecution_def FindResultsByExecution_eq)

lemma checkAndComplete_success:
  assumes "checkAndCompleteExecution calc now eid s = (Inr (), s')" and "\<not> fault_at 0 s"
  shows "if results_of eid (results s) \<noteq> [] \<and> (\<forall>x\<in>set (results_of eid (results s)). \<not> unfinished x)
         then \<exists>e. find (\<lambda>e. execution_ID e = eid) (executions s) = Some e \<and>
                executions s' = put_execution (completed (calc (results_of eid (results s))) now e) (executions s)
         else executions s' = executions s"
proof (cases "results_of eid (results s) \<noteq> [] \<and> (\<forall>x\<in>set (results_of eid (results s)). \<not> unfinished x)")
  case True
  then have "CompleteExecution calc now eid (s\<lparr>faults := tl (faults s)\<rparr>) = (Inr (), s')"
    using assms by (simp add: checkAndCompleteExecution_def FindResultsByExecution_eq allDone_iff)
  from CompleteExecution_success [OF this] show ?thesis
    unfolding if_P [OF True] by (simp add: completed_def)
next
  case False
  then have c: "\<not> ((\<forall>r\<in>set (results_of eid (results s)). \<not> unfinished r) \<and>
      results_of eid (results s) \<noteq> [])"
    by blast
  have "s' = s\<lparr>faults := tl (faults s)\<rparr>"
    using assms by (simp add: checkAndCompleteExecution_def FindResultsByExecution_eq allDone_iff c)
  then show ?thesis
    unfolding if_not_P [OF False] by simp
qed

text \<open>
  Claim C2, as the code has it. Let \<^verbatim>\<open>UpdateResultByID\<close> succeed. Then the result was
  found and rewritten, and the execution of the result is rewritten to completed, with
  the calculator's score over its results and \<^verbatim>\<open>CompletedAt\<close> set, exactly when the
  completion check could load the results and found at least one and none of them
  pending or running; in every other case the execution rows are as they were. When the
  store fails the load of the results that \<^verbatim>\<open>checkAndCompleteExecution\<close> makes to
  decide (the third repository call), the failure is swallowed: the update succeeds, the
  result is rewritten and the execution rows are as they were.
\<close>

theorem UpdateResultByID_autocomplete:
  "(\<forall>s'. UpdateResultByID calc now now_c rid status output exitCode s = (Inr (), s') \<longrightarrow>
      (\<exists>r. find (\<lambda>x. result_ID x = rid) (results s) = Some r \<and>
         results s' = put_result (rewritten status output exitCode now r) (results s) \<and>
         (if fault_at 2 s then executions s' = executions s
          else if results_of (result_ExecutionID r) (results s') \<noteq> [] \<and>
                  (\<forall>x\<in>set (results_of (result_ExecutionID r) (results s')). \<not> unfinished x)
          then \<exists>e. find (\<lambda>e. execution_ID e = result_ExecutionID r) (executions s) = Some e \<and>
                 executions s' =
                   put_execution
                     (completed (calc (results_of (result_ExecutionID r) (results s'))) now_c e)
                     (executions s)
          else executions s' = executions s)))
   \<and> (\<forall>r. find (\<lambda>x. result_ID x = rid) (results s) = Some r \<and>
          \<not> fault_at 0 s \<and> \<not> fault_at 1 s \<and> fault_at 2 s \<longrightarrow>
        (\<exists>s'. UpdateResultByID calc now now_c rid status output exitCode s = (Inr (), s') \<and>
           executions s' = executions s \<and>
           results s' = put_result (rewritten status output exitCode now r) (results s)))"
proof (intro conjI allI impI)
  fix s'
  assume ok: "UpdateResultByID calc now now_c rid status output exitCode s = (Inr (), s')"
  from UpdateResultByID_success_persisted [OF ok] obtain r where
    r: "find (\<lambda>x. result_ID x = rid) (results s) = Some r" and
    f0: "\<not> fault_at 0 s" and f1: "\<not> fault_at (Suc 0) s" by blast
  define s2 where "s2 = s\<lparr>faults := drop 2 (faults s),
          results := put_result (rewritten status output exitCode now r) (results s)\<rparr>"
  have chk: "checkAndCompleteExecution calc now_c (result_ExecutionID r) s2 = (Inr (), s')"
    using UpdateResultByID_persisted [OF r f0 f1, of calc now now_c status "output" exitCode] ok
    by (simp add: s2_def)
  have res: "results s' = results s2"
    using checkAndComplete_results [of calc now_c "result_ExecutionID r" s2] chk by simp
  have f2: "fault_at 0 s2 = fault_at 2 s"
    by (simp add: s2_def)
  have exs: "executions s2 = executions s"
    by (simp add: s2_def)
  have "if fault_at 2 s then executions s' = executions s
          else if results_of (result_ExecutionID r) (results s') \<noteq> [] \<and>
                  (\<forall>x\<in>set (results_of (result_ExecutionID r) (results s')). \<not> unfinished x)
          then \<exists>e. find (\<lambda>e. execution_ID e = result_ExecutionID r) (executions s) = Some e \<and>
                 executions s' =
                   put_execution
                     (completed (calc (results_of (result_ExecutionID r) (results s'))) now_c e)
                     (executions s)
          else executions s' = executions s"
  proof (cases "fault_at 2 s")
    case True
    then have "s' = s2\<lparr>faults := tl (faults s2)\<rparr>"
      using checkAndComplete_swallow [of s2 calc now_c "result_ExecutionID r"] chk f2 by simp
    then have "executions s' = executions s" using exs by simp
    then show ?thesis unfolding if_P [OF True] .
  next
    case False
    then have "\<not> fault_at 0 s2" using f2 by simp
    from checkAndComplete_success [OF chk this] show ?thesis
      unfolding if_not_P [OF False] res exs .
  qed
  moreover have "results s' = put_result (rewritten status output exitCode now r) (results s)"
    using res by (simp add: s2_def)
  ultimately show "\<exists>r. find (\<lambda>x. result_ID x = rid) (results s) = Some r \<and>
         results s' = put_result (rewritten status output exitCode now r) (results s) \<and>
         (if fault_at 2 s then executions s' = executions s
          else if results_of (result_ExecutionID r) (results s') \<noteq> [] \<and>
                  (\<forall>x\<in>set (results_of (result_ExecutionID r) (results s')). \<not> unfinished x)
          then \<exists>e. find (\<lambda>e. execution_ID e = result_ExecutionID r) (executions s) = Some e \<and>
                 executions s' =
                   put_execution
                     (completed (calc (results_of (result_ExecutionID r) (results s'))) now_c e)
                     (executions s)
          else executions s' = executions s)"
    using r by blast
next
  fix r
  assume a: "find (\<lambda>x. result_ID x = rid) (results s) = Some r \<and>
          \<not> fault_at 0 s \<and> \<not> fault_at 1 s \<and> fault_at 2 s"
  define s2 where "s2 = s\<lparr>faults := drop 2 (faults s),
          results := put_result (rewritten status output exitCode now r) (results s)\<rparr>"
  have "fault_at 0 s2" using a by (simp add: s2_def)
  then have "checkAndCompleteExecution calc now_c (result_ExecutionID r) s2 = (Inr (), s2\<lparr>faults := tl (faults s2)\<rparr>)"
    by (rule checkAndComplete_swallow)
  moreover have "UpdateResultByID calc now now_c rid status output exitCode s =
     checkAndCompleteExecution calc now_c (result_ExecutionID r) s2"
    unfolding s2_def using a by (intro UpdateResultByID_persisted) simp_all
  ultimately show "\<exists>s'. UpdateResultByID calc now now_c rid status output exitCode s = (Inr (), s') \<and>
           executions s' = executions s \<and>
           results s' = put_result (rewritten status output exitCode now r) (results s)"
    by (simp add: s2_def)
qed

lemma skip_results_Inr:
  "skip_results now rs s = (Inr u, s') \<Longrightarrow>
     results s' = skip_rows now rs (results s) \<and> executions s' = executions s"
proof (induction rs arbitrary: s)
  case Nil
  then show ?case by simp
next
  case (Cons r rs)
  show ?case
  proof (cases "unfinished r")
    case False
    then have "skip_results now (r # rs) s = skip_results now rs s"
      by (simp add: unfinished_def)
    with Cons False show ?thesis by simp
  next
    case True
    then have nf: "\<not> fault_at 0 s"
      using Cons.prems by (auto simp: unfinished_def UpdateResult_eq skipped_def split: if_splits)
    define s1 where "s1 = s\<lparr>faults := tl (faults s), results := put_result (skipped now r) (results s)\<rparr>"
    have "skip_results now (r # rs) s = skip_results now rs s1"
      using True nf by (auto simp: unfinished_def UpdateResult_eq skipped_def s1_def)
    with Cons.prems have "skip_results now rs s1 = (Inr u, s')" by simp
    from Cons.IH [OF this] True show ?thesis
      by (simp add: s1_def)
  qed
qed

lemma skip_results_executions:
  "executions (snd (skip_results now rs s)) = executions s"
proof (induction rs arbitrary: s)
  case Nil
  then show ?case by simp
next
  case (Cons r rs)
  show ?case
  proof (cases "unfinished r \<and> \<not> fault_at 0 s")
    case True
    define s1 where "s1 = s\<lparr>faults := tl (faults s), results := put_result (skipped now r) (results s)\<rparr>"
    have "skip_results now (r # rs) s = skip_results now rs s1"
      using True by (auto simp: unfinished_def UpdateResult_eq skipped_def s1_def)
    then show ?thesis
      using Cons.IH [of s1] by (simp add: s1_def)
  next
    case False
    then show ?thesis
      using Cons.IH [of s] by (auto simp: unfinished_def UpdateResult_eq)
  qed
qed

lemma skip_results_fail:
  assumes "k < length (filter unfinished rs)"
    and "\<forall>i<k. \<not> fault_at i s" and "fault_at k s"
  shows "skip_results now rs s =
     (Inl (FailedToUpdateResult (result_ID (filter unfinished rs ! k)) StoreUnavailable),
      s\<lparr>faults := drop (Suc k) (faults s),
        results := skip_rows now (take k (filter unfinished rs)) (results s)\<rparr>)"
  using assms
proof (induction rs arbitrary: s k)
  case Nil
  then show ?case by simp
next
  case (Cons r rs)
  show ?case
  proof (cases "unfinished r")
    case False
    then have "skip_results now (r # rs) s = skip_results now rs s"
      by (simp add: unfinished_def)
    moreover have "filter unfinished (r # rs) = filter unfinished rs"
      using False by simp
    ultimately show ?thesis
      using Cons.IH [of k s] Cons.prems by simp
  next
    case True
    show ?thesis
    proof (cases k)
      case 0
      then have "fault_at 0 s" using Cons.prems by simp
      then show ?thesis
        using True 0 by (auto simp: unfinished_def UpdateResult_eq skipped_def drop_Suc)
    next
      case (Suc j)
      then have nf: "\<not> fault_at 0 s" using Cons.prems by simp
      define s1 where "s1 = s\<lparr>faults := tl (faults s), results := put_result (skipped now r) (results s)\<rparr>"
      have step: "skip_results now (r # rs) s = skip_results now rs s1"
        using True nf by (auto simp: unfinished_def UpdateResult_eq skipped_def s1_def)
      have j: "j < length (filter unfinished rs)"
        using Cons.prems(1) True Suc by simp
      have before: "\<forall>i<j. \<not> fault_at i s1"
        using Cons.prems(2) Suc by (auto simp: s1_def)
      have at: "fault_at j s1"
        using Cons.prems(3) Suc by (simp add: s1_def)
      show ?thesis
        unfolding step Cons.IH [OF j before at]
        using True Suc by (simp add: s1_def drop_Suc)
    qed
  qed
qed

lemma put_result_ID [simp]: "map result_ID (put_result r rows) = map result_ID rows"
  by (induction rows) (simp_all add: put_result_def)

lemma put_result_distinct:
  assumes "distinct (map result_ID rows)" and "r \<in> set rows"
  shows "put_result (skipped now r) rows = map (\<lambda>x. if x = r then skipped now r else x) rows"
proof -
  have "result_ID x = result_ID r \<longleftrightarrow> x = r" if "x \<in> set rows" for x
    using assms that by (auto simp: distinct_map inj_on_def)
  then show ?thesis
    by (simp add: put_result_def skipped_def)
qed

lemma skip_rows_pointwise:
  assumes "distinct (map result_ID rows)" and "set rs \<subseteq> set rows" and "distinct rs"
  shows "skip_rows now rs rows =
     map (\<lambda>x. if x \<in> set rs \<and> unfinished x then skipped now x else x) rows"
  using assms
proof (induction rs arbitrary: rows)
  case Nil
  then show ?case by simp
next
  case (Cons r rs)
  show ?case
  proof (cases "unfinished r")
    case False
    then have "skip_rows now (r # rs) rows = skip_rows now rs rows" by simp
    also have "\<dots> = map (\<lambda>x. if x \<in> set rs \<and> unfinished x then skipped now x else x) rows"
      using Cons by simp
    also have "\<dots> = map (\<lambda>x. if x \<in> set (r # rs) \<and> unfinished x then skipped now x else x) rows"
      using False by (intro map_cong) auto
    finally show ?thesis .
  next
    case True
    define rows1 where "rows1 = map (\<lambda>x. if x = r then skipped now r else x) rows"
    have r_in: "r \<in> set rows" using Cons.prems by simp
    have rows1: "put_result (skipped now r) rows = rows1"
      unfolding rows1_def by (rule put_result_distinct [OF Cons.prems(1) r_in])
    have d1: "distinct (map result_ID rows1)"
      using Cons.prems(1) rows1 [symmetric] by simp
    have sub1: "set rs \<subseteq> set rows1"
    proof
      fix x assume x: "x \<in> set rs"
      then have "x \<noteq> r" using Cons.prems(3) by auto
      moreover have "x \<in> set rows" using x Cons.prems(2) by auto
      ultimately show "x \<in> set rows1" by (auto simp: rows1_def)
    qed
    have dr: "distinct rs" using Cons.prems(3) by simp
    have fin: "\<not> unfinished (skipped now r)"
      by (simp add: unfinished_def skipped_def)
    have "skip_rows now (r # rs) rows = skip_rows now rs rows1"
      using True rows1 by simp
    also have "\<dots> = map (\<lambda>x. if x \<in> set rs \<and> unfinished x then skipped now x else x) rows1"
      by (rule Cons.IH [OF d1 sub1 dr])
    also have "\<dots> = map (\<lambda>x. if x \<in> set (r # rs) \<and> unfinished x then skipped now x else x) rows"
      unfolding rows1_def using True fin by (auto simp: comp_def)
    finally show ?thesis .
  qed
qed

lemmas lab_defs =
  lab_store_def small_store_def pending_store_def empty_store_def executionE1_def
  resultR1_def resultR2_def resultR3_def tally_def

lemmas store_eqs =
  FindResultByID_eq UpdateResult_eq FindResultsByExecution_eq FindExecutionByID_eq
  UpdateExecution_eq

text \<open>
  An instance: with two results, one blocked already, the update of the last running
  result completes the execution with the calculator's score and the time of
  completion; when the store fails to load the results for the check, the update
  succeeds all the same and the execution stays running.
\<close>

theorem UpdateResultByID_autocomplete_witness:
  "fst (UpdateResultByID tally 7 8 ''R2'' StatusDetected ''seen'' 0 (small_store [])) = Inr ()
   \<and> map execution_Status
        (executions (snd (UpdateResultByID tally 7 8 ''R2'' StatusDetected ''seen'' 0 (small_store []))))
       = [ExecutionCompleted]
   \<and> map execution_Score
        (executions (snd (UpdateResultByID tally 7 8 ''R2'' StatusDetected ''seen'' 0 (small_store []))))
       = [Some (1, 1, 0, 2)]
   \<and> map execution_CompletedAt
        (executions (snd (UpdateResultByID tally 7 8 ''R2'' StatusDetected ''seen'' 0 (small_store []))))
       = [Some 8]
   \<and> fst (UpdateResultByID tally 7 8 ''R2'' StatusDetected ''seen'' 0
            (small_store [False, False, True])) = Inr ()
   \<and> map execution_Status
        (executions (snd (UpdateResultByID tally 7 8 ''R2'' StatusDetected ''seen'' 0
            (small_store [False, False, True]))))
       = [ExecutionRunning]"
proof -
  define s0 where "s0 = small_store []"
  define s1 where "s1 = snd (UpdateResultByID tally 7 8 ''R2'' StatusDetected ''seen'' 0 s0)"
  have ok: "UpdateResultByID tally 7 8 ''R2'' StatusDetected ''seen'' 0 s0 = (Inr (), s1)"
    unfolding s1_def s0_def
    by (simp add: UpdateResultByID_def checkAndCompleteExecution_def CompleteExecution_def
        store_eqs lab_defs fault_at_def results_of_def put_result_def put_execution_def)
  have okfst: "fst (UpdateResultByID tally 7 8 ''R2'' StatusDetected ''seen'' 0 s0) = Inr ()"
    by (simp add: ok)
  have persisted: "\<exists>r. find (\<lambda>x. result_ID x = ''R2'') (results s0) = Some r \<and>
      results s1 = put_result (rewritten StatusDetected ''seen'' 0 7 r) (results s0)"
    using UpdateResultByID_autocomplete [of tally 7 8 "''R2''" StatusDetected "''seen''" 0 s0] ok
    by blast
  have compl: "map execution_Status (executions s1) = [ExecutionCompleted]
      \<and> map execution_Score (executions s1) = [Some (1, 1, 0, 2)]
      \<and> map execution_CompletedAt (executions s1) = [Some 8]"
    unfolding s1_def s0_def
    by (simp add: UpdateResultByID_def checkAndCompleteExecution_def CompleteExecution_def
        store_eqs lab_defs fault_at_def results_of_def put_result_def put_execution_def)
  have swallowed:
    "fst (UpdateResultByID tally 7 8 ''R2'' StatusDetected ''seen'' 0
            (small_store [False, False, True])) = Inr ()
     \<and> map execution_Status
        (executions (snd (UpdateResultByID tally 7 8 ''R2'' StatusDetected ''seen'' 0
            (small_store [False, False, True]))))
       = [ExecutionRunning]"
    by (simp add: UpdateResultByID_def checkAndCompleteExecution_def store_eqs lab_defs
        fault_at_def put_result_def)
  show ?thesis
    using okfst persisted compl swallowed by (simp add: s0_def s1_def)
qed

text \<open>
  The claim as stated fails twice. The second load of the results, the one that
  \<^verbatim>\<open>CompleteExecution\<close> makes once the check has found every result done (the fifth
  repository call), is not swallowed: its error is returned by \<^verbatim>\<open>UpdateResultByID\<close>,
  with the result already rewritten and the execution still running. And when the
  check's own load fails (the third call), the update succeeds and every result is done,
  yet the execution is not completed.
\<close>

theorem UpdateResultByID_second_load_fails:
  "fst (UpdateResultByID tally 7 8 ''R2'' StatusDetected ''seen'' 0
          (small_store [False, False, False, False, True])) = Inl StoreUnavailable
   \<and> map result_Status
        (results (snd (UpdateResultByID tally 7 8 ''R2'' StatusDetected ''seen'' 0
            (small_store [False, False, False, False, True]))))
       = [StatusBlocked, StatusDetected]
   \<and> map result_CompletedAt
        (results (snd (UpdateResultByID tally 7 8 ''R2'' StatusDetected ''seen'' 0
            (small_store [False, False, False, False, True]))))
       = [Some 3, Some 7]
   \<and> map execution_Status
        (executions (snd (UpdateResultByID tally 7 8 ''R2'' StatusDetected ''seen'' 0
            (small_store [False, False, False, False, True]))))
       = [ExecutionRunning]
   \<and> fst (UpdateResultByID tally 7 8 ''R2'' StatusDetected ''seen'' 0
          (small_store [False, False, True])) = Inr ()
   \<and> map result_Status
        (results (snd (UpdateResultByID tally 7 8 ''R2'' StatusDetected ''seen'' 0
            (small_store [False, False, True]))))
       = [StatusBlocked, StatusDetected]
   \<and> map execution_Status
        (executions (snd (UpdateResultByID tally 7 8 ''R2'' StatusDetected ''seen'' 0
            (small_store [False, False, True]))))
       = [ExecutionRunning]"
  by (simp add: UpdateResultByID_def checkAndCompleteExecution_def CompleteExecution_def
      store_eqs lab_defs fault_at_def results_of_def put_result_def put_execution_def)

text \<open>
  Claim C3, as the code has it. Every update that finds the result and persists it
  stores the given status, output and exit code and sets \<^verbatim>\<open>CompletedAt\<close> to the time of
  this update, whatever the new status and whatever the result held before: the last
  write wins.
\<close>

theorem UpdateResultByID_last_write:
  assumes "find (\<lambda>x. result_ID x = rid) (results s) = Some r"
    and "\<not> fault_at 0 s" and "\<not> fault_at 1 s"
  shows "results (snd (UpdateResultByID calc now now_c rid status output exitCode s)) =
           put_result (rewritten status output exitCode now r) (results s)
       \<and> find (\<lambda>x. result_ID x = rid)
           (results (snd (UpdateResultByID calc now now_c rid status output exitCode s))) =
           Some (rewritten status output exitCode now r)
       \<and> result_Status (rewritten status output exitCode now r) = status
       \<and> result_CompletedAt (rewritten status output exitCode now r) = Some now"
proof -
  have id: "result_ID r = rid"
    using assms(1) by (auto simp: find_Some_iff)
  have "find (\<lambda>x. result_ID x = rid) (put_result r' rows) = Some r'"
    if "find (\<lambda>x. result_ID x = rid) rows = Some r" and "result_ID r' = rid" for r' rows
    using that by (induction rows) (auto simp: put_result_def split: if_splits)
  from this [OF assms(1), of "rewritten status output exitCode now r"] id
  have "find (\<lambda>x. result_ID x = rid)
      (put_result (rewritten status output exitCode now r) (results s)) =
      Some (rewritten status output exitCode now r)"
    by (simp add: rewritten_def)
  moreover have "results (snd (UpdateResultByID calc now now_c rid status output exitCode s)) =
           put_result (rewritten status output exitCode now r) (results s)"
    using assms by (simp add: UpdateResultByID_persisted)
  ultimately show ?thesis
    by (simp add: rewritten_def)
qed

theorem UpdateResultByID_last_write_witness:
  "find (\<lambda>x. result_ID x = ''R2'') (results (small_store [])) = Some resultR2
   \<and> map result_Status
       (results (snd (UpdateResultByID tally 7 8 ''R2'' StatusDetected ''seen'' 0 (small_store []))))
      = [StatusBlocked, StatusDetected]
   \<and> map result_CompletedAt
       (results (snd (UpdateResultByID tally 7 8 ''R2'' StatusDetected ''seen'' 0 (small_store []))))
      = [Some 3, Some 7]"
proof -
  have found: "find (\<lambda>x. result_ID x = ''R2'') (results (small_store [])) = Some resultR2"
    by (simp add: lab_defs)
  have nf: "\<not> fault_at 0 (small_store [])" "\<not> fault_at 1 (small_store [])"
    by (simp_all add: lab_defs fault_at_def)
  show ?thesis
    using found UpdateResultByID_last_write [OF found nf, of tally 7 8 StatusDetected "''seen''" 0]
    by (simp add: put_result_def rewritten_def lab_defs)
qed

text \<open>
  The claim as stated fails: an update to the non-terminal status running sets
  \<^verbatim>\<open>CompletedAt\<close>, and a second update of a result that was blocked at time 3 replaces
  both its terminal status and its \<^verbatim>\<open>CompletedAt\<close>.
\<close>

theorem UpdateResultByID_stamps_every_write:
  "map result_Status
       (results (snd (UpdateResultByID tally 7 8 ''R3'' StatusRunning [] 0 (lab_store []))))
      = [StatusBlocked, StatusRunning, StatusRunning]
   \<and> map result_CompletedAt
       (results (snd (UpdateResultByID tally 7 8 ''R3'' StatusRunning [] 0 (lab_store []))))
      = [Some 3, None, Some 7]
   \<and> map result_Status
       (results (snd (UpdateResultByID tally 7 8 ''R1'' StatusDetected ''seen'' 0 (lab_store []))))
      = [StatusDetected, StatusRunning, StatusPending]
   \<and> map result_CompletedAt
       (results (snd (UpdateResultByID tally 7 8 ''R1'' StatusDetected ''seen'' 0 (lab_store []))))
      = [Some 7, None, None]"
  by (simp add: UpdateResultByID_def checkAndCompleteExecution_def store_eqs lab_defs
      fault_at_def put_result_def results_of_def)

lemma results_of_distinct:
  assumes "distinct (map result_ID rows)"
  shows "distinct (results_of eid rows)" and "distinct (pending_of eid rows)"
proof -
  have "distinct rows" using assms by (simp add: distinct_map)
  then show "distinct (results_of eid rows)" "distinct (pending_of eid rows)"
    by (simp_all add: results_of_def pending_of_def)
qed

lemma skip_rows_all:
  assumes "distinct (map result_ID rows)"
  shows "skip_rows now (results_of eid rows) rows =
     map (\<lambda>r. if result_ExecutionID r = eid \<and> unfinished r then skipped now r else r) rows"
proof -
  have "skip_rows now (results_of eid rows) rows =
      map (\<lambda>x. if x \<in> set (results_of eid rows) \<and> unfinished x then skipped now x else x) rows"
    by (rule skip_rows_pointwise [OF assms _ results_of_distinct(1) [OF assms]])
       (simp add: results_of_def)
  also have "\<dots> =
      map (\<lambda>r. if result_ExecutionID r = eid \<and> unfinished r then skipped now r else r) rows"
    by (intro map_cong) (auto simp: results_of_def)
  finally show ?thesis .
qed

text \<open>
  Claim C4, as the code has it. \<^verbatim>\<open>CancelExecution\<close> refuses an execution whose status
  is neither running nor pending with the error that names the status, and leaves the
  rows of the store as they were. When it succeeds the execution was running or pending;
  it is then cancelled with \<^verbatim>\<open>CompletedAt\<close> set to now, every result of the execution
  that was pending or running is skipped with \<^verbatim>\<open>CompletedAt\<close> set to now, and every
  other result is untouched (result identifiers being unique).
\<close>

theorem CancelExecution_guard:
  "(\<forall>e. find (\<lambda>x. execution_ID x = eid) (executions s) = Some e \<and> \<not> fault_at 0 s \<and>
         execution_Status e \<noteq> ExecutionRunning \<and> execution_Status e \<noteq> ExecutionPending \<longrightarrow>
       (\<exists>s'. CancelExecution now eid s = (Inl (CannotBeCancelled (execution_Status e)), s') \<and>
          executions s' = executions s \<and> results s' = results s))
   \<and> (\<forall>s'. CancelExecution now eid s = (Inr (), s') \<longrightarrow>
       (\<exists>e. find (\<lambda>x. execution_ID x = eid) (executions s) = Some e \<and>
          (execution_Status e = ExecutionRunning \<or> execution_Status e = ExecutionPending) \<and>
          executions s' = put_execution (cancelled now e) (executions s) \<and>
          (distinct (map result_ID (results s)) \<longrightarrow>
             results s' =
               map (\<lambda>r. if result_ExecutionID r = eid \<and> unfinished r then skipped now r else r)
                 (results s))))"
proof (intro conjI allI impI)
  fix e
  assume "find (\<lambda>x. execution_ID x = eid) (executions s) = Some e \<and> \<not> fault_at 0 s \<and>
         execution_Status e \<noteq> ExecutionRunning \<and> execution_Status e \<noteq> ExecutionPending"
  then show "\<exists>s'. CancelExecution now eid s = (Inl (CannotBeCancelled (execution_Status e)), s') \<and>
          executions s' = executions s \<and> results s' = results s"
    by (simp add: CancelExecution_def FindExecutionByID_eq)
next
  fix s'
  assume ok: "CancelExecution now eid s = (Inr (), s')"
  define s1 where "s1 = s\<lparr>faults := tl (faults s)\<rparr>"
  define s2 where "s2 = s1\<lparr>faults := tl (faults s1)\<rparr>"
  from ok obtain e where e: "find (\<lambda>x. execution_ID x = eid) (executions s) = Some e"
    and f0: "\<not> fault_at 0 s"
    by (auto simp: CancelExecution_def FindExecutionByID_eq split: if_splits option.splits)
  have st: "execution_Status e = ExecutionRunning \<or> execution_Status e = ExecutionPending"
    using ok e f0 by (auto simp: CancelExecution_def FindExecutionByID_eq split: if_splits)
  have f1: "\<not> fault_at 0 s1"
    using ok e f0 st
    by (auto simp: CancelExecution_def FindExecutionByID_eq FindResultsByExecution_eq s1_def
        split: if_splits)
  obtain r3 s3 where sk: "skip_results now (results_of eid (results s)) s2 = (r3, s3)"
    by (cases "skip_results now (results_of eid (results s)) s2")
  have whole: "CancelExecution now eid s =
      (case r3 of Inl err \<Rightarrow> (Inl err, s3)
       | Inr u \<Rightarrow> UpdateExecution (e\<lparr>execution_Status := ExecutionCancelled,
                                        execution_CompletedAt := Some now\<rparr>) s3)"
    using e f0 st f1 sk
    by (auto simp: CancelExecution_def FindExecutionByID_eq FindResultsByExecution_eq
        s1_def s2_def)
  obtain u where r3: "r3 = Inr u" and upd: "UpdateExecution (cancelled now e) s3 = (Inr (), s')"
    using ok unfolding whole by (cases r3) (auto simp: cancelled_def)
  from skip_results_Inr [OF sk [unfolded r3]]
  have s3: "results s3 = skip_rows now (results_of eid (results s)) (results s)"
    "executions s3 = executions s"
    by (simp_all add: s2_def s1_def)
  from upd have s': "executions s' = put_execution (cancelled now e) (executions s3)"
    "results s' = results s3"
    by (auto simp: UpdateExecution_eq split: if_splits)
  have "distinct (map result_ID (results s)) \<longrightarrow>
      results s' =
        map (\<lambda>r. if result_ExecutionID r = eid \<and> unfinished r then skipped now r else r)
          (results s)"
    using s' s3 by (simp add: skip_rows_all)
  then show "\<exists>e. find (\<lambda>x. execution_ID x = eid) (executions s) = Some e \<and>
          (execution_Status e = ExecutionRunning \<or> execution_Status e = ExecutionPending) \<and>
          executions s' = put_execution (cancelled now e) (executions s) \<and>
          (distinct (map result_ID (results s)) \<longrightarrow>
             results s' =
               map (\<lambda>r. if result_ExecutionID r = eid \<and> unfinished r then skipped now r else r)
                 (results s))"
    using e st s' s3 by auto
qed

theorem CancelExecution_guard_witness:
  "fst (CancelExecution 5 ''E1'' (lab_store [])) = Inr ()
   \<and> distinct (map result_ID (results (lab_store [])))
   \<and> map execution_Status (executions (lab_store [])) = [ExecutionRunning]
   \<and> map execution_Status (executions (snd (CancelExecution 5 ''E1'' (lab_store []))))
       = [ExecutionCancelled]
   \<and> map result_Status (results (snd (CancelExecution 5 ''E1'' (lab_store []))))
       = [StatusBlocked, StatusSkipped, StatusSkipped]
   \<and> map result_CompletedAt (results (snd (CancelExecution 5 ''E1'' (lab_store []))))
       = [Some 3, Some 5, Some 5]
   \<and> fst (CancelExecution 9 ''E1'' (snd (CancelExecution 5 ''E1'' (lab_store []))))
       = Inl (CannotBeCancelled ExecutionCancelled)
   \<and> executions (snd (CancelExecution 9 ''E1'' (snd (CancelExecution 5 ''E1'' (lab_store [])))))
       = executions (snd (CancelExecution 5 ''E1'' (lab_store [])))
   \<and> results (snd (CancelExecution 9 ''E1'' (snd (CancelExecution 5 ''E1'' (lab_store [])))))
       = results (snd (CancelExecution 5 ''E1'' (lab_store [])))"
proof -
  define s1 where "s1 = snd (CancelExecution 5 ''E1'' (lab_store []))"
  have ok: "CancelExecution 5 ''E1'' (lab_store []) = (Inr (), s1)"
    unfolding s1_def
    by (simp add: CancelExecution_def store_eqs lab_defs fault_at_def results_of_def
        put_result_def put_execution_def)
  have okfst: "fst (CancelExecution 5 ''E1'' (lab_store [])) = Inr ()"
    by (simp add: ok)
  have d: "distinct (map result_ID (results (lab_store [])))"
    by (simp add: lab_defs)
  have before: "map execution_Status (executions (lab_store [])) = [ExecutionRunning]"
    by (simp add: lab_defs)
  have e: "find (\<lambda>x. execution_ID x = ''E1'') (executions (lab_store [])) = Some executionE1"
    by (simp add: lab_defs)
  from CancelExecution_guard [of "''E1''" "lab_store []" 5] ok e d
  have after: "executions s1 = put_execution (cancelled 5 executionE1) (executions (lab_store []))"
    "results s1 =
       map (\<lambda>r. if result_ExecutionID r = ''E1'' \<and> unfinished r then skipped 5 r else r)
         (results (lab_store []))"
    by auto
  have rows: "map execution_Status (executions s1) = [ExecutionCancelled]"
    "map result_Status (results s1) = [StatusBlocked, StatusSkipped, StatusSkipped]"
    "map result_CompletedAt (results s1) = [Some 3, Some 5, Some 5]"
    unfolding after
    by (simp_all add: put_execution_def cancelled_def skipped_def unfinished_def lab_defs)
  have e1: "find (\<lambda>x. execution_ID x = ''E1'') (executions s1) = Some (cancelled 5 executionE1)"
    unfolding after by (simp add: put_execution_def cancelled_def lab_defs)
  have nf: "\<not> fault_at 0 s1"
    unfolding s1_def
    by (simp add: CancelExecution_def store_eqs lab_defs fault_at_def results_of_def
        put_result_def put_execution_def)
  from CancelExecution_guard [of "''E1''" s1 9] e1 nf
  have "\<exists>s'. CancelExecution 9 ''E1'' s1 = (Inl (CannotBeCancelled ExecutionCancelled), s') \<and>
          executions s' = executions s1 \<and> results s' = results s1"
    by (simp add: cancelled_def)
  then have again: "fst (CancelExecution 9 ''E1'' s1) = Inl (CannotBeCancelled ExecutionCancelled)"
    "executions (snd (CancelExecution 9 ''E1'' s1)) = executions s1"
    "results (snd (CancelExecution 9 ''E1'' s1)) = results s1"
    by auto
  show ?thesis
    using okfst d before rows again unfolding s1_def by simp
qed

text \<open>The claim as stated fails: an execution in status pending is cancelled too.\<close>

theorem CancelExecution_pending:
  "map execution_Status (executions pending_store) = [ExecutionPending]
   \<and> fst (CancelExecution 5 ''E1'' pending_store) = Inr ()
   \<and> map execution_Status (executions (snd (CancelExecution 5 ''E1'' pending_store)))
       = [ExecutionCancelled]
   \<and> map result_Status (results (snd (CancelExecution 5 ''E1'' pending_store)))
       = [StatusBlocked, StatusSkipped]"
  by (simp add: CancelExecution_def store_eqs lab_defs fault_at_def results_of_def
      put_result_def put_execution_def)

text \<open>
  Claim C10. \<^verbatim>\<open>CancelExecution\<close> is not atomic. Let the execution be running, and let
  the store fail on the update of the \<open>k\<close>-th pending or running result of the execution
  (counting from 0) after serving every call before it. Then the call returns the error
  of that update, the execution rows are as they were (the status is still running), the
  \<open>k\<close> results updated before the failure are skipped with \<^verbatim>\<open>CompletedAt\<close> set to now, and
  every other result is as it was.
\<close>

theorem CancelExecution_not_atomic:
  assumes "find (\<lambda>x. execution_ID x = eid) (executions s) = Some e"
    and "execution_Status e = ExecutionRunning"
    and "distinct (map result_ID (results s))"
    and "k < length (pending_of eid (results s))"
    and "\<forall>i < 2 + k. \<not> fault_at i s"
    and "fault_at (2 + k) s"
  shows "\<exists>s'. CancelExecution now eid s =
           (Inl (FailedToUpdateResult (result_ID (pending_of eid (results s) ! k)) StoreUnavailable),
            s')
         \<and> executions s' = executions s
         \<and> find (\<lambda>x. execution_ID x = eid) (executions s') = Some e
         \<and> results s' =
             map (\<lambda>r. if r \<in> set (take k (pending_of eid (results s))) then skipped now r else r)
               (results s)"
proof -
  define s2 where "s2 = s\<lparr>faults := drop 2 (faults s)\<rparr>"
  define pend where "pend = pending_of eid (results s)"
  have f0: "\<not> fault_at 0 s" and f1: "\<not> fault_at (Suc 0) s"
    using assms(5) by auto
  have before: "\<forall>i<k. \<not> fault_at i s2"
    using assms(5) by (simp add: s2_def)
  have at: "fault_at k s2"
    using assms(6) by (simp add: s2_def)
  have k: "k < length (filter unfinished (results_of eid (results s)))"
    using assms(4) by (simp add: pending_of_def)
  have whole: "CancelExecution now eid s =
      (case skip_results now (results_of eid (results s)) s2 of
         (Inl err, s3) \<Rightarrow> (Inl err, s3)
       | (Inr u, s3) \<Rightarrow>
           UpdateExecution (e\<lparr>execution_Status := ExecutionCancelled,
                              execution_CompletedAt := Some now\<rparr>) s3)"
    using assms(1,2) f0 f1
    by (simp add: CancelExecution_def FindExecutionByID_eq FindResultsByExecution_eq s2_def
        drop_Suc drop_tl numeral_2_eq_2)
  define s3 where "s3 = s2\<lparr>faults := drop (Suc k) (faults s2),
        results := skip_rows now (take k pend) (results s2)\<rparr>"
  have failed: "CancelExecution now eid s =
      (Inl (FailedToUpdateResult (result_ID (pend ! k)) StoreUnavailable), s3)"
    unfolding whole skip_results_fail [OF k before at]
    by (simp add: s3_def pend_def pending_of_def)
  have sub: "set (take k pend) \<subseteq> set (results s)"
    using set_take_subset [of k pend] by (auto simp: pend_def pending_of_def results_of_def)
  have dist: "distinct (take k pend)"
    using results_of_distinct(2) [OF assms(3), of eid] by (simp add: pend_def)
  have unf: "unfinished x" if "x \<in> set (take k pend)" for x
    using that set_take_subset [of k pend] by (auto simp: pend_def pending_of_def)
  have "results s3 = skip_rows now (take k pend) (results s)"
    by (simp add: s3_def s2_def)
  also have "\<dots> = map (\<lambda>x. if x \<in> set (take k pend) \<and> unfinished x then skipped now x else x)
      (results s)"
    by (rule skip_rows_pointwise [OF assms(3) sub dist])
  also have "\<dots> = map (\<lambda>r. if r \<in> set (take k pend) then skipped now r else r) (results s)"
    using unf by (intro map_cong) auto
  finally have "results s3 =
      map (\<lambda>r. if r \<in> set (take k pend) then skipped now r else r) (results s)" .
  moreover have "executions s3 = executions s"
    by (simp add: s3_def s2_def)
  ultimately show ?thesis
    using failed assms(1) by (simp add: pend_def)
qed

theorem CancelExecution_not_atomic_witness:
  "map execution_Status (executions (lab_store [False, False, False, True])) = [ExecutionRunning]
   \<and> map result_ID (pending_of ''E1'' (results (lab_store [False, False, False, True])))
       = [''R2'', ''R3'']
   \<and> fst (CancelExecution 5 ''E1'' (lab_store [False, False, False, True]))
       = Inl (FailedToUpdateResult ''R3'' StoreUnavailable)
   \<and> map execution_Status
        (executions (snd (CancelExecution 5 ''E1'' (lab_store [False, False, False, True]))))
       = [ExecutionRunning]
   \<and> map result_Status
        (results (snd (CancelExecution 5 ''E1'' (lab_store [False, False, False, True]))))
       = [StatusBlocked, StatusSkipped, StatusPending]
   \<and> map result_CompletedAt
        (results (snd (CancelExecution 5 ''E1'' (lab_store [False, False, False, True]))))
       = [Some 3, Some 5, None]"
proof -
  define s0 where "s0 = lab_store [False, False, False, True]"
  have e: "find (\<lambda>x. execution_ID x = ''E1'') (executions s0) = Some executionE1"
    and st: "execution_Status executionE1 = ExecutionRunning"
    and d: "distinct (map result_ID (results s0))"
    by (simp_all add: s0_def lab_defs)
  have pend: "pending_of ''E1'' (results s0) = [resultR2, resultR3]"
    by (simp add: s0_def pending_of_def results_of_def unfinished_def lab_defs)
  have k: "1 < length (pending_of ''E1'' (results s0))"
    by (simp add: pend)
  have nf: "\<forall>i < 2 + 1. \<not> fault_at i s0"
  proof (intro allI impI)
    fix i :: nat
    assume "i < 2 + 1"
    then consider "i = 0" | "i = 1" | "i = 2" by linarith
    then show "\<not> fault_at i s0"
      by cases (simp_all add: s0_def lab_defs fault_at_def)
  qed
  have f: "fault_at (2 + 1) s0"
    by (simp add: s0_def lab_defs fault_at_def)
  from CancelExecution_not_atomic [OF e st d k nf f, of 5] obtain s' where
    s': "CancelExecution 5 ''E1'' s0 =
          (Inl (FailedToUpdateResult (result_ID (pending_of ''E1'' (results s0) ! 1)) StoreUnavailable), s')"
      "executions s' = executions s0"
      "results s' =
         map (\<lambda>r. if r \<in> set (take 1 (pending_of ''E1'' (results s0))) then skipped 5 r else r)
           (results s0)"
    by blast
  have "fst (CancelExecution 5 ''E1'' s0) = Inl (FailedToUpdateResult ''R3'' StoreUnavailable)"
    using s'(1) by (simp add: pend lab_defs)
  moreover have "snd (CancelExecution 5 ''E1'' s0) = s'"
    using s'(1) by simp
  moreover have "map execution_Status (executions s') = [ExecutionRunning]"
    using s'(2) by (simp add: s0_def lab_defs)
  moreover have "map result_Status (results s') = [StatusBlocked, StatusSkipped, StatusPending]"
    "map result_CompletedAt (results s') = [Some 3, Some 5, None]"
    unfolding s'(3) pend by (simp_all add: s0_def skipped_def lab_defs)
  moreover have "map execution_Status (executions s0) = [ExecutionRunning]"
    by (simp add: s0_def lab_defs)
  moreover have "map result_ID (pending_of ''E1'' (results s0)) = [''R2'', ''R3'']"
    by (simp add: pend lab_defs)
  ultimately show ?thesis
    unfolding s0_def by simp
qed

lemma build_agentMap_member:
  "build_agentMap agents m p = Some a \<Longrightarrow> (a \<in> set agents \<and> agent_Paw a = p) \<or> m p = Some a"
  by (induction agents arbitrary: m) (fastforce split: if_splits)+

lemma verify_agents_passes:
  "verify_agents agentMap paws = None \<Longrightarrow> p \<in> set paws \<Longrightarrow>
     \<exists>a. agentMap p = Some a \<and> agent_Status a = AgentOnline"
  by (induction paws) (auto split: option.splits if_splits)

text \<open>
  Claim C5. If one of the requested paws resolves to no online agent among the loaded
  agents (no loaded agent has the paw, or the agents with the paw are not online),
  \<^verbatim>\<open>StartExecution\<close> returns an error and the store, fault script included, is the one
  it was called with: no repository call that writes was made, and no Execution or
  Result row created.
\<close>

theorem StartExecution_validates_first:
  assumes "p \<in> set agentPaws"
    and "\<forall>agents. agentRepo_FindByPaws E agentPaws = Some agents \<longrightarrow>
           (\<forall>a\<in>set agents. agent_Paw a = p \<longrightarrow> agent_Status a \<noteq> AgentOnline)"
  shows "\<exists>err. StartExecution E uuid clock scenarioID agentPaws safeMode s = (Inl err, s)"
proof (cases "scenarioRepo_FindByID E scenarioID")
  case None
  then show ?thesis by (simp add: StartExecution_def)
next
  case (Some scenario)
  show ?thesis
  proof (cases "agentRepo_FindByPaws E agentPaws")
    case None
    with Some show ?thesis by (simp add: StartExecution_def)
  next
    case agents: (Some agents)
    have "verify_agents (build_agentMap agents Map.empty) agentPaws \<noteq> None"
    proof
      assume "verify_agents (build_agentMap agents Map.empty) agentPaws = None"
      from verify_agents_passes [OF this assms(1)] obtain a where
        a: "build_agentMap agents Map.empty p = Some a" "agent_Status a = AgentOnline"
        by blast
      from build_agentMap_member [OF a(1)] have "a \<in> set agents \<and> agent_Paw a = p"
        by simp
      with assms(2) agents a(2) show False by blast
    qed
    then obtain err where "verify_agents (build_agentMap agents Map.empty) agentPaws = Some err"
      by blast
    with Some agents show ?thesis by (simp add: StartExecution_def)
  qed
qed

theorem StartExecution_validates_first_witness:
  "''agentC'' \<in> set [''agentA'', ''agentC'']
   \<and> agentRepo_FindByPaws lab_env [''agentA'', ''agentC''] = Some [agentA, agentC]
   \<and> agent_Status agentC = AgentOffline
   \<and> StartExecution lab_env lab_uuid lab_clock ''S1'' [''agentA'', ''agentC''] False empty_store
       = (Inl (AgentNotOnline ''agentC''), empty_store)
   \<and> StartExecution lab_env lab_uuid lab_clock ''S1'' [''agentA'', ''agentZ''] False empty_store
       = (Inl (AgentNotFound ''agentZ''), empty_store)"
proof -
  have m: "''agentC'' \<in> set [''agentA'', ''agentC'']" by simp
  have l: "agentRepo_FindByPaws lab_env [''agentA'', ''agentC''] = Some [agentA, agentC]"
    by (simp add: lab_env_def agentA_def agentB_def agentC_def)
  have off: "agent_Status agentC = AgentOffline"
    by (simp add: agentC_def)
  have h: "\<forall>agents. agentRepo_FindByPaws lab_env [''agentA'', ''agentC''] = Some agents \<longrightarrow>
           (\<forall>a\<in>set agents. agent_Paw a = ''agentC'' \<longrightarrow> agent_Status a \<noteq> AgentOnline)"
    unfolding l by (simp add: agentA_def agentC_def)
  from StartExecution_validates_first [OF m h, of lab_uuid lab_clock "''S1''" False empty_store]
  obtain err where
    e: "StartExecution lab_env lab_uuid lab_clock ''S1'' [''agentA'', ''agentC''] False empty_store
          = (Inl err, empty_store)"
    by blast
  have "fst (StartExecution lab_env lab_uuid lab_clock ''S1'' [''agentA'', ''agentC''] False empty_store)
      = Inl (AgentNotOnline ''agentC'')"
    by (simp add: StartExecution_def lab_env_def kill_chain_def agentA_def agentB_def agentC_def)
  with e have first: "StartExecution lab_env lab_uuid lab_clock ''S1'' [''agentA'', ''agentC''] False
      empty_store = (Inl (AgentNotOnline ''agentC''), empty_store)"
    by simp
  have second: "StartExecution lab_env lab_uuid lab_clock ''S1'' [''agentA'', ''agentZ''] False
      empty_store = (Inl (AgentNotFound ''agentZ''), empty_store)"
    by (simp add: StartExecution_def lab_env_def kill_chain_def agentA_def agentB_def agentC_def)
  show ?thesis
    using m l off first second by simp
qed

text \<open>With both requested agents online the same call creates the execution and one
  pending result per planned task.\<close>

lemma StartExecution_creates_rows:
  "map execution_Status
     (executions (snd (StartExecution lab_env lab_uuid lab_clock ''S1'' [''agentA'', ''agentB'']
        False empty_store))) = [ExecutionRunning]
   \<and> map result_ID
     (results (snd (StartExecution lab_env lab_uuid lab_clock ''S1'' [''agentA'', ''agentB'']
        False empty_store))) = [''N1'', ''N2'', ''N3'']
   \<and> map result_Status
     (results (snd (StartExecution lab_env lab_uuid lab_clock ''S1'' [''agentA'', ''agentB'']
        False empty_store))) = [StatusPending, StatusPending, StatusPending]
   \<and> map (\<lambda>t. (dispatch_TechniqueID t, dispatch_AgentPaw t, dispatch_Executor t))
     (case fst (StartExecution lab_env lab_uuid lab_clock ''S1'' [''agentA'', ''agentB'']
        False empty_store) of Inl err \<Rightarrow> [] | Inr started \<Rightarrow> started_Tasks started)
     = [(''T1082'', ''agentA'', ''sh''), (''T1059'', ''agentA'', ''sh''),
        (''T1059'', ''agentB'', ''psh'')]"
  by (simp add: StartExecution_def PlanExecution_def CreateExecution_def CreateResult_def
      tick_def lab_env_def kill_chain_def agentA_def agentB_def agentC_def sh_executor_def
      psh_executor_def lab_uuid_def lab_clock_def empty_store_def Let_def)

text \<open>
  Claim C1 fails on the code. \<^verbatim>\<open>CompleteExecution\<close> does not look at the status it
  overwrites: after \<^verbatim>\<open>CancelExecution\<close> has cancelled a running execution and
  skipped its open results, a late \<^verbatim>\<open>UpdateResultByID\<close> for one of them finds every
  result terminal and marks the cancelled execution completed.
\<close>

theorem late_update_completes_cancelled:
  "fst (CancelExecution 5 ''E1'' (lab_store [])) = Inr ()
   \<and> map execution_Status (executions (snd (CancelExecution 5 ''E1'' (lab_store []))))
       = [ExecutionCancelled]
   \<and> map result_Status (results (snd (CancelExecution 5 ''E1'' (lab_store []))))
       = [StatusBlocked, StatusSkipped, StatusSkipped]
   \<and> fst (UpdateResultByID tally 9 10 ''R3'' StatusSuccessful ''late'' 0
            (snd (CancelExecution 5 ''E1'' (lab_store [])))) = Inr ()
   \<and> map execution_Status
        (executions (snd (UpdateResultByID tally 9 10 ''R3'' StatusSuccessful ''late'' 0
            (snd (CancelExecution 5 ''E1'' (lab_store []))))))
       = [ExecutionCompleted]
   \<and> map execution_CompletedAt
        (executions (snd (UpdateResultByID tally 9 10 ''R3'' StatusSuccessful ''late'' 0
            (snd (CancelExecution 5 ''E1'' (lab_store []))))))
       = [Some 10]"
  by (simp add: CancelExecution_def UpdateResultByID_def checkAndCompleteExecution_def
      CompleteExecution_def store_eqs lab_defs fault_at_def results_of_def put_result_def
      put_execution_def)

section \<open>Properties of the schedule\<close>





















end
